theory Spec2Isabelle
  imports Complex_Main
begin

section \<open>Python values, errors and arithmetic\<close>

text \<open>
  The exceptions that the two transforms of \<^verbatim>\<open>pymic/transform/crop.py\<close> can raise.
  A failing \<^verbatim>\<open>assert\<close> is \<open>AssertionError\<close>; \<^verbatim>\<open>len(None)\<close> and iterating over
  \<^verbatim>\<open>None\<close> are \<open>TypeError\<close>; a list or tuple read past its end is \<open>IndexError\<close>; a
  missing key of the sample is \<open>KeyError\<close>; \<^verbatim>\<open>random.randint\<close> on an empty range, a
  negative extent and a sub-volume of the wrong shape are \<open>ValueError\<close>; \<^verbatim>\<open>.shape\<close> of a
  list is \<open>AttributeError\<close>.
\<close>

datatype error =
  AssertionError | TypeError | IndexError | KeyError | ValueError | AttributeError

text \<open>
  \<^verbatim>\<open>int(x/2)\<close> under \<^verbatim>\<open>from __future__ import division\<close>: the quotient is a float and
  \<^verbatim>\<open>int\<close> rounds it toward zero. The float is exact for every \<open>x\<close> below \<open>2^53\<close> in
  absolute value, which covers every array extent; the model computes on integers.
\<close>

definition py_int_half :: "int \<Rightarrow> int" where
  "py_int_half x = (if 0 \<le> x then x div 2 else - ((- x) div 2))"

text \<open>
  \<^verbatim>\<open>random.randint(lo, hi)\<close>: any integer of \<open>[lo, hi]\<close>, and \<open>ValueError\<close> when the range
  is empty. The draw is an explicit argument \<open>n\<close>, a natural number folded into the range,
  so that every \<open>n\<close> is an outcome and every outcome is reached by some \<open>n\<close>.
\<close>

definition randint :: "int \<Rightarrow> int \<Rightarrow> nat \<Rightarrow> error + int" where
  "randint lo hi n =
     (if hi < lo then Inl ValueError else Inr (lo + int (n mod nat (hi - lo + 1))))"

text \<open>A list comprehension whose element expression can raise: the first error wins.\<close>

fun sequence_list :: "(error + 'b) list \<Rightarrow> error + 'b list" where
  "sequence_list [] = Inr []"
| "sequence_list (x # xs) =
     (case x of
        Inl e \<Rightarrow> Inl e
      | Inr v \<Rightarrow> (case sequence_list xs of Inl e \<Rightarrow> Inl e | Inr vs \<Rightarrow> Inr (v # vs)))"

section \<open>Arrays\<close>

text \<open>
  A numpy array is its shape and its elements, read by a full index (one coordinate per
  axis). Only the elements at valid indices matter.
\<close>

record 'a ndarray =
  shape :: "nat list"
  item :: "nat list \<Rightarrow> 'a"

definition valid_index :: "nat list \<Rightarrow> nat list \<Rightarrow> bool" where
  "valid_index shp idx = list_all2 (<) idx shp"

text \<open>All indices of an array of the given shape, in row-major order.\<close>

fun ndindex :: "nat list \<Rightarrow> nat list list" where
  "ndindex [] = [[]]"
| "ndindex (n # ns) = concat (map (\<lambda>i. map ((#) i) (ndindex ns)) [0..<n])"


text \<open>\<^verbatim>\<open>mask.sum()\<close>.\<close>

definition array_sum :: "int ndarray \<Rightarrow> int" where
  "array_sum a = sum_list (map (item a) (ndindex (shape a)))"

text \<open>
  Python's basic slicing \<^verbatim>\<open>a[lo:hi]\<close> on an axis of extent \<open>n\<close>: a negative bound counts
  from the end, both bounds are clipped to \<open>[0, n]\<close>, and the slice is empty when the
  clipped upper bound is not above the lower one. \<open>py_slice\<close> gives the first index read
  and the number of indices.
\<close>

definition py_clip :: "nat \<Rightarrow> int \<Rightarrow> nat" where
  "py_clip n i = nat (if i < 0 then max 0 (i + int n) else min i (int n))"

definition py_slice :: "nat \<Rightarrow> int \<Rightarrow> int \<Rightarrow> nat \<times> nat" where
  "py_slice n lo hi = (py_clip n lo, py_clip n hi - py_clip n lo)"

section \<open>The helpers of \<^verbatim>\<open>pymic.util.image_process\<close>\<close>

text \<open>
  Modelled from the spec: \<^verbatim>\<open>get_ND_bounding_box\<close> of \<^verbatim>\<open>pymic/util/image_process.py\<close>,
  which is not among the sources. The spec calls the bounding box "the minimal
  axis-aligned box containing all non-zero voxels of an array, given as per-axis (min, max)
  index pairs". Boxes are half-open throughout the spec ("a half-open box
  \<open>[crop_min, crop_max)\<close>"), the forward pass uses the bounding box directly as such a box,
  and \<^verbatim>\<open>RandomCrop\<close> substitutes \<open>(0, shape)\<close> for it on an empty mask: so the upper bound
  is one past the largest index of a non-zero voxel. An array without a non-zero voxel
  has no such box; \<^verbatim>\<open>RandomCrop\<close> tests for that case before it calls the helper, and the
  model fails there.
\<close>

definition nonzero_indices :: "('a::zero) ndarray \<Rightarrow> nat list list" where
  "nonzero_indices volume = filter (\<lambda>idx. item volume idx \<noteq> 0) (ndindex (shape volume))"

definition get_ND_bounding_box :: "('a::zero) ndarray \<Rightarrow> error + (int list \<times> int list)" where
  "get_ND_bounding_box volume =
     (let indxes = nonzero_indices volume in
      if indxes = [] then Inl ValueError
      else Inr (map (\<lambda>k. int (Min (set (map (\<lambda>idx. idx ! k) indxes))))
                  [0..<length (shape volume)],
                map (\<lambda>k. int (Max (set (map (\<lambda>idx. idx ! k) indxes))) + 1)
                  [0..<length (shape volume)]))"

text \<open>
  Modelled from the spec: \<^verbatim>\<open>crop_ND_volume_with_bounding_box\<close> of
  \<^verbatim>\<open>pymic/util/image_process.py\<close>, which is not among the sources. The spec has it
  "slice" the array "to \<open>[crop_min, crop_max)\<close>": one basic slice per axis, with Python's
  clipping. Bounds that do not give one pair per axis are an \<open>IndexError\<close>.
\<close>

definition crop_ND_volume_with_bounding_box ::
  "'a ndarray \<Rightarrow> int list \<Rightarrow> int list \<Rightarrow> error + 'a ndarray" where
  "crop_ND_volume_with_bounding_box volume bb_min bb_max =
     (if length bb_min = length (shape volume) \<and> length bb_max = length (shape volume) then
        (let sl = map (\<lambda>k. py_slice (shape volume ! k) (bb_min ! k) (bb_max ! k))
                    [0..<length (shape volume)]
         in Inr \<lparr>shape = map snd sl,
                 item = (\<lambda>idx. item volume (map2 (+) (map fst sl) idx))\<rparr>)
      else Inl IndexError)"




section \<open>The sample\<close>

text \<open>
  \<^verbatim>\<open>json.dumps\<close> and \<^verbatim>\<open>json.loads\<close> belong to Python's library. The text that
  \<^verbatim>\<open>json.dumps\<close> writes for a tuple of integer sequences is represented by the document it
  encodes, an array of arrays of integers; \<^verbatim>\<open>json.loads\<close> reads the document back.
\<close>

datatype json_text = JSON "int list list"

definition json_dumps :: "int list \<times> int list \<times> int list \<Rightarrow> json_text" where
  "json_dumps t = (case t of (a, b, c) \<Rightarrow> JSON [a, b, c])"

definition json_loads :: "json_text \<Rightarrow> int list list" where
  "json_loads s = (case s of JSON doc \<Rightarrow> doc)"

text \<open>
  The value under a \<^verbatim>\<open>..._Param\<close> key: the string the forward pass stores, or the list or
  tuple of strings that batching makes of it. The value under \<^verbatim>\<open>predict\<close>: one array, or
  a list or tuple of arrays.
\<close>

datatype param_value = PStr json_text | PSeq "json_text list"

datatype 'a predict_value = PArr "'a ndarray" | PArrs "'a ndarray list"

record ('a, 'l) sample =
  s_image :: "'a ndarray"
  s_label :: "'l ndarray option"
  s_weight :: "'a ndarray option"
  s_CropWithBoundingBox_Param :: "param_value option"
  s_RandomCrop_Param :: "param_value option"
  s_predict :: "'a predict_value option"

text \<open>
  A forward call mutates the sample it is given and returns it. The result is the returned
  sample, or the exception together with the sample as the call left it.
\<close>

type_synonym ('a, 'l) outcome = "(error \<times> ('a, 'l) sample) + ('a, 'l) sample"

section \<open>Cropping the fields of a sample\<close>

text \<open>
  Lines 60-64 and 65-69 (165-169 and 170-174 in \<^verbatim>\<open>RandomCrop\<close>): an optional array is
  cropped when it is present and its shape without the leading axis is the image's;
  \<^verbatim>\<open>crop_max[0]\<close> is overwritten in place by the array's own leading extent. The result is
  the new value of the entry and the list \<^verbatim>\<open>crop_max\<close> as the step leaves it.
\<close>

definition crop_entry ::
  "'b ndarray option \<Rightarrow> nat list \<Rightarrow> int list \<Rightarrow> int list \<Rightarrow>
     error + ('b ndarray option \<times> int list)" where
  "crop_entry entry image_shape crop_min crop_max =
     (case entry of
        None \<Rightarrow> Inr (None, crop_max)
      | Some arr \<Rightarrow>
          if tl (shape arr) = tl image_shape then
            (case shape arr of
               [] \<Rightarrow> Inl IndexError
             | c # rest \<Rightarrow>
                 (case crop_max of
                    [] \<Rightarrow> Inl IndexError
                  | m # ms \<Rightarrow>
                      (case crop_ND_volume_with_bounding_box arr crop_min (int c # ms) of
                         Inl e \<Rightarrow> Inl e
                       | Inr arr_t \<Rightarrow> Inr (Some arr_t, int c # ms))))
          else Inr (Some arr, crop_max))"

text \<open>
  Lines 57-70 (162-175): the image is cropped and stored, then the label, then the weight.
\<close>

definition crop_fields ::
  "int list \<Rightarrow> int list \<Rightarrow> ('a, 'l) sample \<Rightarrow> ('a, 'l) outcome" where
  "crop_fields crop_min crop_max sample =
     (let img = s_image sample in
      case crop_ND_volume_with_bounding_box img crop_min crop_max of
        Inl e \<Rightarrow> Inl (e, sample)
      | Inr image_t \<Rightarrow>
          (let sample1 = sample\<lparr>s_image := image_t\<rparr> in
           case crop_entry (s_label sample1) (shape img) crop_min crop_max of
             Inl e \<Rightarrow> Inl (e, sample1)
           | Inr (label_t, crop_max1) \<Rightarrow>
               (let sample2 = sample1\<lparr>s_label := label_t\<rparr> in
                case crop_entry (s_weight sample2) (shape img) crop_min crop_max1 of
                  Inl e \<Rightarrow> Inl (e, sample2)
                | Inr (weight_t, crop_max2) \<Rightarrow> Inr (sample2\<lparr>s_weight := weight_t\<rparr>))))"

section \<open>CropWithBoundingBox\<close>

record CropWithBoundingBox =
  bb_start :: "int list option"
  bb_output_size :: "int list option"
  bb_inverse :: bool

text \<open>
  Lines 30-52 of \<^verbatim>\<open>__call__\<close>: the spatial bounds, by the four cases of \<^verbatim>\<open>start\<close> and
  \<^verbatim>\<open>output_size\<close>. In the third case \<^verbatim>\<open>len(self.output_size)\<close> is evaluated on \<^verbatim>\<open>None\<close>;
  in the fourth \<^verbatim>\<open>self.output_size[i]\<close> is read without a check of the length.
\<close>

definition CropWithBoundingBox_bounds ::
  "CropWithBoundingBox \<Rightarrow> ('a::zero) ndarray \<Rightarrow> error + (int list \<times> int list)" where
  "CropWithBoundingBox_bounds self img =
     (let input_shape = shape img;
          input_dim = int (length input_shape) - 1;
          axes = [0..<nat input_dim]
      in case get_ND_bounding_box img of
           Inl e \<Rightarrow> Inl e
         | Inr (bb_min0, bb_max0) \<Rightarrow>
             (let bb_min = tl bb_min0; bb_max = tl bb_max0 in
              case bb_start self of
                None \<Rightarrow>
                  (case bb_output_size self of
                     None \<Rightarrow> Inr (bb_min, bb_max)
                   | Some output_size \<Rightarrow>
                       if int (length output_size) = input_dim then
                         (let crop_min0 = map (\<lambda>i. py_int_half (bb_min ! i + bb_max ! i + 1)
                                                    - py_int_half (output_size ! i)) axes;
                              crop_min = map (\<lambda>i. max 0 (crop_min0 ! i)) axes;
                              crop_max = map (\<lambda>i. crop_min ! i + output_size ! i) axes
                          in Inr (crop_min, crop_max))
                       else Inl AssertionError)
              | Some start \<Rightarrow>
                  if int (length start) = input_dim then
                    (case bb_output_size self of
                       None \<Rightarrow> Inl TypeError
                     | Some output_size \<Rightarrow>
                         if nat input_dim \<le> length output_size then
                           Inr (start, map (\<lambda>i. start ! i + output_size ! i) axes)
                         else Inl IndexError)
                  else Inl AssertionError))"

text \<open>Lines 53-70: the channel bounds, the stored parameter, the cropped fields.\<close>

definition CropWithBoundingBox_call ::
  "CropWithBoundingBox \<Rightarrow> ('a::zero, 'l) sample \<Rightarrow> ('a, 'l) outcome" where
  "CropWithBoundingBox_call self sample =
     (let img = s_image sample; input_shape = shape img in
      case CropWithBoundingBox_bounds self img of
        Inl e \<Rightarrow> Inl (e, sample)
      | Inr (crop_min0, crop_max0) \<Rightarrow>
          (let crop_min = 0 # crop_min0;
               crop_max = map int (take 1 input_shape) @ crop_max0
           in crop_fields crop_min crop_max
                (sample\<lparr>s_CropWithBoundingBox_Param :=
                   Some (PStr (json_dumps (map int input_shape, crop_min, crop_max)))\<rparr>)))"

section \<open>RandomCrop\<close>

text \<open>
  A configuration value that may be \<^verbatim>\<open>None\<close>, a list or tuple, or something else.
\<close>

datatype 'x pyseq = PyNone | PySeq "'x list" | PyOther

record 'l RandomCrop_params =
  p_output_size :: "int pyseq"
  p_foreground_focus :: bool
  p_foreground_ratio :: real
  p_mask_label :: "'l pyseq"
  p_inverse :: bool

record 'l RandomCrop =
  rc_output_size :: "int list"
  rc_fg_focus :: bool
  rc_fg_ratio :: real
  rc_mask_label :: "'l list option"
  rc_inverse :: bool

text \<open>Lines 121-128 of \<^verbatim>\<open>__init__\<close>, with its two assertions.\<close>

definition RandomCrop_init :: "'l RandomCrop_params \<Rightarrow> error + 'l RandomCrop" where
  "RandomCrop_init params =
     (case p_output_size params of
        PySeq output_size \<Rightarrow>
          (case p_mask_label params of
             PyNone \<Rightarrow>
               Inr \<lparr>rc_output_size = output_size, rc_fg_focus = p_foreground_focus params,
                    rc_fg_ratio = p_foreground_ratio params, rc_mask_label = None,
                    rc_inverse = p_inverse params\<rparr>
           | PySeq mask_label \<Rightarrow>
               Inr \<lparr>rc_output_size = output_size, rc_fg_focus = p_foreground_focus params,
                    rc_fg_ratio = p_foreground_ratio params, rc_mask_label = Some mask_label,
                    rc_inverse = p_inverse params\<rparr>
           | PyOther \<Rightarrow> Inl AssertionError)
      | PyNone \<Rightarrow> Inl AssertionError
      | PyOther \<Rightarrow> Inl AssertionError)"

text \<open>
  The random draws of one forward call: one per axis for line 138, the value of
  \<^verbatim>\<open>random.random()\<close> (a number of \<open>[0, 1)\<close>) for line 139, one per axis for line 150.
\<close>

record draws =
  d_offset :: "nat \<Rightarrow> nat"
  d_unit :: real
  d_focus :: "nat \<Rightarrow> nat"

text \<open>
  Lines 141-143: the mask starts as zeros of the label's shape, and each foreground label
  raises it to \<open>1\<close> where the label array carries that value.
\<close>

definition foreground_mask :: "'l ndarray \<Rightarrow> 'l list \<Rightarrow> int ndarray" where
  "foreground_mask label mask_label =
     fold (\<lambda>temp_lab mask.
             \<lparr>shape = shape mask,
              item = (\<lambda>idx. max (item mask idx) (if item label idx = temp_lab then 1 else 0))\<rparr>)
       mask_label \<lparr>shape = shape label, item = (\<lambda>idx. 0)\<rparr>"

text \<open>Lines 140-154: the offset of the foreground-focused crop.\<close>

definition RandomCrop_foreground ::
  "'l RandomCrop \<Rightarrow> draws \<Rightarrow> ('a, 'l) sample \<Rightarrow> error + int list" where
  "RandomCrop_foreground self d sample =
     (let input_shape = shape (s_image sample);
          input_dim = int (length input_shape) - 1;
          output_size = rc_output_size self;
          axes = [0..<nat input_dim]
      in case s_label sample of
           None \<Rightarrow> Inl KeyError
         | Some label \<Rightarrow>
             (case rc_mask_label self of
                None \<Rightarrow> Inl TypeError
              | Some mask_label \<Rightarrow>
                  (let mask = foreground_mask label mask_label in
                   case (if array_sum mask = 0
                         then Inr (replicate (nat (input_dim + 1)) 0, map int (shape mask))
                         else get_ND_bounding_box mask) of
                     Inl e \<Rightarrow> Inl e
                   | Inr (bb_min0, bb_max0) \<Rightarrow>
                       (let bb_min = tl bb_min0; bb_max = tl bb_max0 in
                        if nat input_dim \<le> length bb_min \<and> nat input_dim \<le> length bb_max then
                          (case sequence_list
                                  (map (\<lambda>i. randint (bb_min ! i) (bb_max ! i) (d_focus d i)) axes) of
                             Inl e \<Rightarrow> Inl e
                           | Inr centre \<Rightarrow>
                               (let crop_min0 = map (\<lambda>i. centre ! i - py_int_half (output_size ! i)) axes;
                                    crop_min1 = map (max 0) crop_min0;
                                    crop_min2 = map (\<lambda>i. min (crop_min1 ! i)
                                                  (int (input_shape ! (i + 1)) - output_size ! i)) axes
                                in Inr crop_min2))
                        else Inl IndexError))))"

text \<open>Lines 131-157 of \<^verbatim>\<open>__call__\<close>: the spatial bounds.\<close>

definition RandomCrop_bounds ::
  "'l RandomCrop \<Rightarrow> draws \<Rightarrow> ('a, 'l) sample \<Rightarrow> error + (int list \<times> int list)" where
  "RandomCrop_bounds self d sample =
     (let input_shape = shape (s_image sample);
          input_dim = int (length input_shape) - 1;
          output_size = rc_output_size self;
          axes = [0..<nat input_dim]
      in if input_dim = int (length output_size) then
           (let crop_margin = map (\<lambda>i. int (input_shape ! (i + 1)) - output_size ! i) axes in
            case sequence_list (map (\<lambda>i. randint 0 (crop_margin ! i) (d_offset d i)) axes) of
              Inl e \<Rightarrow> Inl e
            | Inr crop_min_u \<Rightarrow>
                (case (if rc_fg_focus self \<and> d_unit d < rc_fg_ratio self
                       then RandomCrop_foreground self d sample
                       else Inr crop_min_u) of
                   Inl e \<Rightarrow> Inl e
                 | Inr crop_min \<Rightarrow>
                     Inr (crop_min, map (\<lambda>i. crop_min ! i + output_size ! i) axes)))
         else Inl AssertionError)"

text \<open>Lines 158-175: the channel bounds, the stored parameter, the cropped fields.\<close>

definition RandomCrop_call ::
  "'l RandomCrop \<Rightarrow> draws \<Rightarrow> ('a, 'l) sample \<Rightarrow> ('a, 'l) outcome" where
  "RandomCrop_call self d sample =
     (let input_shape = shape (s_image sample) in
      case RandomCrop_bounds self d sample of
        Inl e \<Rightarrow> Inl (e, sample)
      | Inr (crop_min0, crop_max0) \<Rightarrow>
          (let crop_min = 0 # crop_min0;
               crop_max = map int (take 1 input_shape) @ crop_max0
           in crop_fields crop_min crop_max
                (sample\<lparr>s_RandomCrop_Param :=
                   Some (PStr (json_dumps (map int input_shape, crop_min, crop_max)))\<rparr>)))"

section \<open>The inverse transforms\<close>

text \<open>
  Lines 78-85 (183-190): the stored parameter is parsed, from its first element when it is
  a list or tuple, and its first three entries are read.
\<close>

definition load_param :: "param_value \<Rightarrow> error + (int list \<times> int list \<times> int list)" where
  "load_param p =
     (case (case p of
              PSeq [] \<Rightarrow> Inl IndexError
            | PSeq (s # ss) \<Rightarrow> Inr (json_loads s)
            | PStr s \<Rightarrow> Inr (json_loads s)) of
        Inl e \<Rightarrow> Inl e
      | Inr params \<Rightarrow>
          (case params of
             origin_shape # crop_min # crop_max # rest \<Rightarrow> Inr (origin_shape, crop_min, crop_max)
           | _ \<Rightarrow> Inl IndexError))"





section \<open>The prediction of the round trip\<close>


section \<open>Example inputs\<close>

text \<open>
  A one-channel image of four voxels whose only non-zero voxel is the last one, and a
  sample that holds nothing but an image.
\<close>

definition image_1x4 :: "int ndarray" where
  "image_1x4 = \<lparr>shape = [1, 4], item = (\<lambda>idx. if idx = [0, 3] then 5 else 0)\<rparr>"

definition image_only :: "int ndarray \<Rightarrow> (int, int) sample" where
  "image_only img =
     \<lparr>s_image = img, s_label = None, s_weight = None, s_CropWithBoundingBox_Param = None,
      s_RandomCrop_Param = None, s_predict = None\<rparr>"

text \<open>
  A uniform random crop of two voxels, whose draws put it at offset \<open>1\<close>, and a crop of
  two voxels centred on the bounding box.
\<close>

definition uniform_crop_2 :: "int RandomCrop" where
  "uniform_crop_2 =
     \<lparr>rc_output_size = [2], rc_fg_focus = False, rc_fg_ratio = 0, rc_mask_label = None,
      rc_inverse = False\<rparr>"

definition draws_1 :: draws where
  "draws_1 = \<lparr>d_offset = (\<lambda>i. 1), d_unit = 0, d_focus = (\<lambda>i. 1)\<rparr>"

definition centred_crop_2 :: CropWithBoundingBox where
  "centred_crop_2 = \<lparr>bb_start = None, bb_output_size = Some [2], bb_inverse = False\<rparr>"

text \<open>
  A sample whose label has two channels and the image's four voxels, with its only
  foreground voxel at position \<open>2\<close> of channel \<open>1\<close>, and whose weight has three voxels.
\<close>

definition label_2x4 :: "int ndarray" where
  "label_2x4 = \<lparr>shape = [2, 4], item = (\<lambda>idx. if idx = [1, 2] then 1 else 0)\<rparr>"

definition weight_1x3 :: "int ndarray" where
  "weight_1x3 = \<lparr>shape = [1, 3], item = (\<lambda>idx. 1)\<rparr>"

definition labelled_sample :: "(int, int) sample" where
  "labelled_sample =
     \<lparr>s_image = image_1x4, s_label = Some label_2x4, s_weight = Some weight_1x3,
      s_CropWithBoundingBox_Param = None, s_RandomCrop_Param = None, s_predict = None\<rparr>"




text \<open>
  A crop of four voxels centred on the bounding box, and a crop of three voxels from the
  explicit start \<open>-2\<close>.
\<close>

definition centred_crop_4 :: CropWithBoundingBox where
  "centred_crop_4 = \<lparr>bb_start = None, bb_output_size = Some [4], bb_inverse = False\<rparr>"

definition start_minus_2_crop_3 :: CropWithBoundingBox where
  "start_minus_2_crop_3 =
     \<lparr>bb_start = Some [- 2], bb_output_size = Some [3], bb_inverse = False\<rparr>"

text \<open>
  Two crops from the explicit start \<open>0\<close> on one spatial axis: one with two output sizes, one
  with none.
\<close>

definition start_0_sizes_2_9 :: CropWithBoundingBox where
  "start_0_sizes_2_9 = \<lparr>bb_start = Some [0], bb_output_size = Some [2, 9], bb_inverse = False\<rparr>"

definition start_0_sizes_empty :: CropWithBoundingBox where
  "start_0_sizes_empty = \<lparr>bb_start = Some [0], bb_output_size = Some [], bb_inverse = False\<rparr>"

text \<open>
  Foreground-focused crops that are always taken, of one and of two voxels, for the
  foreground label \<open>1\<close>; and a sample whose label is longer than its image, with its only
  foreground voxel at position \<open>5\<close>.
\<close>

definition foreground_crop :: "int \<Rightarrow> int RandomCrop" where
  "foreground_crop n =
     \<lparr>rc_output_size = [n], rc_fg_focus = True, rc_fg_ratio = 1, rc_mask_label = Some [1],
      rc_inverse = False\<rparr>"

definition label_1x6 :: "int ndarray" where
  "label_1x6 = \<lparr>shape = [1, 6], item = (\<lambda>idx. if idx = [0, 5] then 1 else 0)\<rparr>"

definition long_label_sample :: "(int, int) sample" where
  "long_label_sample =
     \<lparr>s_image = image_1x4, s_label = Some label_1x6, s_weight = None,
      s_CropWithBoundingBox_Param = None, s_RandomCrop_Param = None, s_predict = None\<rparr>"



section \<open>Facts about the helpers\<close>

lemma sequence_list_Inr:
  "sequence_list xs = Inr vs \<Longrightarrow> length vs = length xs \<and> (\<forall>i<length xs. xs ! i = Inr (vs ! i))"
proof (induction xs arbitrary: vs)
  case Nil
  then show ?case by simp
next
  case (Cons x xs)
  then obtain v ws where x: "x = Inr v" and ws: "sequence_list xs = Inr ws" and vs: "vs = v # ws"
    by (auto split: sum.splits)
  from Cons.IH[OF ws] show ?case
    by (auto simp: x vs nth_Cons split: nat.splits)
qed

lemma sequence_list_total:
  "(\<forall>i<length xs. \<exists>v. xs ! i = Inr v) \<Longrightarrow> \<exists>vs. sequence_list xs = Inr vs"
proof (induction xs)
  case Nil
  then show ?case by simp
next
  case (Cons x xs)
  have "\<forall>i<length xs. \<exists>v. xs ! i = Inr v"
    using Cons.prems by (metis Suc_less_eq length_Cons nth_Cons_Suc)
  from Cons.IH[OF this] obtain ws where "sequence_list xs = Inr ws" by blast
  moreover obtain v where "x = Inr v" using Cons.prems by fastforce
  ultimately show ?case by simp
qed

lemma randint_Inr: "randint lo hi n = Inr r \<Longrightarrow> lo \<le> r \<and> r \<le> hi"
proof -
  assume a: "randint lo hi n = Inr r"
  then have le: "lo \<le> hi" by (auto simp: randint_def split: if_splits)
  then have pos: "0 < nat (hi - lo + 1)" by simp
  have "n mod nat (hi - lo + 1) < nat (hi - lo + 1)" using pos by simp
  then have "int (n mod nat (hi - lo + 1)) \<le> hi - lo" using le by linarith
  with a le show ?thesis by (auto simp: randint_def)
qed

lemma randint_total: "lo \<le> hi \<Longrightarrow> \<exists>r. randint lo hi n = Inr r"
  by (simp add: randint_def)

lemma randint_onto: "lo \<le> r \<Longrightarrow> r \<le> hi \<Longrightarrow> randint lo hi (nat (r - lo)) = Inr r"
  by (simp add: randint_def)

lemma randint_Inl: "randint lo hi n = Inl e \<Longrightarrow> hi < lo"
  by (auto simp: randint_def split: if_splits)

lemma set_ndindex: "set (ndindex shp) = {idx. valid_index shp idx}"
proof (induction shp)
  case Nil
  then show ?case by (auto simp: valid_index_def)
next
  case (Cons n ns)
  show ?case
  proof (rule set_eqI)
    fix idx
    show "idx \<in> set (ndindex (n # ns)) \<longleftrightarrow> idx \<in> {idx. valid_index (n # ns) idx}"
      using Cons.IH by (cases idx) (auto simp: valid_index_def)
  qed
qed

lemma valid_index_nth:
  "valid_index shp idx \<longleftrightarrow> length idx = length shp \<and> (\<forall>k<length shp. idx ! k < shp ! k)"
  by (auto simp: valid_index_def list_all2_conv_all_nth)


lemma get_ND_bounding_box_image_1x4: "get_ND_bounding_box image_1x4 = Inr ([0, 3], [1, 4])"
  by (simp add: get_ND_bounding_box_def image_1x4_def nonzero_indices_def upt_conv_Cons)

section \<open>An explicit start without an output size\<close>

text \<open>
  C3. The claim: with \<^verbatim>\<open>start\<close> given and \<^verbatim>\<open>output_size\<close> none, the forward call of
  \<^verbatim>\<open>CropWithBoundingBox\<close> succeeds and reproduces the extent of the bounding box at the
  given origin. The code does not: line 48 asserts on \<^verbatim>\<open>len(self.output_size)\<close> in the
  branch where \<^verbatim>\<open>output_size\<close> is \<^verbatim>\<open>None\<close>, so every call with this configuration raises
  and leaves the sample as it was. On an image with a non-zero voxel and a start of the
  right length the exception is the \<open>TypeError\<close> of that line.
\<close>

theorem start_without_output_size_fails:
  assumes "bb_start self = Some start" and "bb_output_size self = None"
  shows "(\<exists>e. CropWithBoundingBox_call self sample = Inl (e, sample)) \<and>
         (nonzero_indices (s_image sample) \<noteq> [] \<and>
          int (length start) = int (length (shape (s_image sample))) - 1 \<longrightarrow>
            CropWithBoundingBox_call self sample = Inl (TypeError, sample))"
  using assms
  by (auto simp: CropWithBoundingBox_call_def CropWithBoundingBox_bounds_def
      get_ND_bounding_box_def Let_def split: sum.splits prod.splits)

theorem start_without_output_size_fails_witness:
  "CropWithBoundingBox_call \<lparr>bb_start = Some [0], bb_output_size = None, bb_inverse = False\<rparr>
     (image_only image_1x4) = Inl (TypeError, image_only image_1x4)"
proof -
  have nz: "nonzero_indices (s_image (image_only image_1x4)) \<noteq> []"
    by (simp add: image_only_def image_1x4_def nonzero_indices_def upt_conv_Cons)
  show ?thesis
    using start_without_output_size_fails
      [of "\<lparr>bb_start = Some [0], bb_output_size = None, bb_inverse = False\<rparr>" "[0]"
         "image_only image_1x4"] nz
    by (simp add: image_only_def image_1x4_def)
qed

section \<open>Facts about the forward pass\<close>

lemma nonzero_indices_valid: "idx \<in> set (nonzero_indices v) \<Longrightarrow> valid_index (shape v) idx"
  by (simp add: nonzero_indices_def set_ndindex)

lemma get_ND_bounding_box_Inr:
  assumes "get_ND_bounding_box v = Inr (a, b)"
  shows "length a = length (shape v)" and "length b = length (shape v)"
    and "k < length (shape v) \<Longrightarrow> 0 \<le> a ! k \<and> a ! k < b ! k \<and> b ! k \<le> int (shape v ! k)"
proof -
  let ?nz = "nonzero_indices v"
  from assms have ne: "?nz \<noteq> []"
    and a: "a = map (\<lambda>k. int (Min (set (map (\<lambda>idx. idx ! k) ?nz)))) [0..<length (shape v)]"
    and b: "b = map (\<lambda>k. int (Max (set (map (\<lambda>idx. idx ! k) ?nz))) + 1) [0..<length (shape v)]"
    by (auto simp: get_ND_bounding_box_def Let_def split: if_splits)
  show "length a = length (shape v)" by (simp add: a)
  show "length b = length (shape v)" by (simp add: b)
  assume k: "k < length (shape v)"
  let ?S = "set (map (\<lambda>idx. idx ! k) ?nz)"
  have fin: "finite ?S" and nemp: "?S \<noteq> {}" using ne by auto
  have "Max ?S \<in> ?S" using fin nemp by (rule Max_in)
  then obtain idx where "idx \<in> set ?nz" and mx: "Max ?S = idx ! k" by auto
  then have "valid_index (shape v) idx" by (simp add: nonzero_indices_valid)
  then have "idx ! k < shape v ! k" using k by (simp add: valid_index_nth)
  with mx have up: "Max ?S < shape v ! k" by simp
  have "Min ?S \<le> Max ?S" using fin nemp by (simp add: Min_le_iff)
  with up k show "0 \<le> a ! k \<and> a ! k < b ! k \<and> b ! k \<le> int (shape v ! k)"
    by (simp add: a b)
qed

lemma crop_entry_Inr:
  assumes "crop_entry e ishp cmin (m # ms) = Inr (e', cmax')"
  shows "tl cmax' = ms"
    and "e = None \<Longrightarrow> e' = None"
    and "e = Some arr \<Longrightarrow> tl (shape arr) \<noteq> tl ishp \<Longrightarrow> e' = Some arr"
    and "e = Some arr \<Longrightarrow> tl (shape arr) = tl ishp \<Longrightarrow>
           shape arr \<noteq> [] \<and>
           (\<exists>arr_t. crop_ND_volume_with_bounding_box arr cmin (int (hd (shape arr)) # ms) = Inr arr_t
               \<and> e' = Some arr_t)"
  using assms
  by (auto simp: crop_entry_def split: option.splits if_splits list.splits sum.splits)

lemma crop_entry_nonempty:
  assumes "crop_entry e ishp cmin (m # ms) = Inr (e', cmax')"
  shows "\<exists>m'. cmax' = m' # ms"
  using assms
  by (auto simp: crop_entry_def split: option.splits if_splits list.splits sum.splits)

lemma crop_fields_Inr:
  assumes "crop_fields cmin (m # ms) s = Inr s'"
  shows "crop_ND_volume_with_bounding_box (s_image s) cmin (m # ms) = Inr (s_image s')"
    and "s_CropWithBoundingBox_Param s' = s_CropWithBoundingBox_Param s"
    and "s_RandomCrop_Param s' = s_RandomCrop_Param s"
    and "s_predict s' = s_predict s"
    and "\<exists>m1 c1 c2. crop_entry (s_label s) (shape (s_image s)) cmin (m # ms) = Inr (s_label s', c1)
           \<and> crop_entry (s_weight s) (shape (s_image s)) cmin (m1 # ms) = Inr (s_weight s', c2)"
proof -
  from assms obtain image_t label_t c1 weight_t c2 where
    i: "crop_ND_volume_with_bounding_box (s_image s) cmin (m # ms) = Inr image_t"
    and l: "crop_entry (s_label s) (shape (s_image s)) cmin (m # ms) = Inr (label_t, c1)"
    and w: "crop_entry (s_weight s) (shape (s_image s)) cmin c1 = Inr (weight_t, c2)"
    and s': "s' = s\<lparr>s_image := image_t, s_label := label_t, s_weight := weight_t\<rparr>"
    by (auto simp: crop_fields_def Let_def split: sum.splits prod.splits)
  from crop_entry_nonempty[OF l] obtain m1 where c1: "c1 = m1 # ms" by blast
  show "crop_ND_volume_with_bounding_box (s_image s) cmin (m # ms) = Inr (s_image s')"
    by (simp add: i s')
  show "s_CropWithBoundingBox_Param s' = s_CropWithBoundingBox_Param s" by (simp add: s')
  show "s_RandomCrop_Param s' = s_RandomCrop_Param s" by (simp add: s')
  show "s_predict s' = s_predict s" by (simp add: s')
  show "\<exists>m1 c1 c2. crop_entry (s_label s) (shape (s_image s)) cmin (m # ms) = Inr (s_label s', c1)
           \<and> crop_entry (s_weight s) (shape (s_image s)) cmin (m1 # ms) = Inr (s_weight s', c2)"
    using l w c1 by (auto simp: s')
qed

lemma crop_ND_lengths:
  "crop_ND_volume_with_bounding_box v a b = Inr r \<Longrightarrow>
     length a = length (shape v) \<and> length b = length (shape v)"
  by (auto simp: crop_ND_volume_with_bounding_box_def split: if_splits)

lemma CropWithBoundingBox_call_Inr:
  assumes "CropWithBoundingBox_call self s = Inr s'"
  shows "\<exists>c sp mn mx.
           shape (s_image s) = c # sp \<and> length mn = length sp \<and> length mx = length sp \<and>
           CropWithBoundingBox_bounds self (s_image s) = Inr (mn, mx) \<and>
           crop_fields (0 # mn) (int c # mx)
             (s\<lparr>s_CropWithBoundingBox_Param :=
                  Some (PStr (json_dumps (map int (c # sp), 0 # mn, int c # mx)))\<rparr>) = Inr s'"
proof -
  from assms obtain mn mx where
    b: "CropWithBoundingBox_bounds self (s_image s) = Inr (mn, mx)"
    and f: "crop_fields (0 # mn) (map int (take 1 (shape (s_image s))) @ mx)
             (s\<lparr>s_CropWithBoundingBox_Param :=
                  Some (PStr (json_dumps (map int (shape (s_image s)), 0 # mn,
                     map int (take 1 (shape (s_image s))) @ mx)))\<rparr>) = Inr s'"
    by (auto simp: CropWithBoundingBox_call_def Let_def split: sum.splits prod.splits)
  from f obtain image_t where
    "crop_ND_volume_with_bounding_box (s_image s) (0 # mn)
       (map int (take 1 (shape (s_image s))) @ mx) = Inr image_t"
    by (auto simp: crop_fields_def Let_def split: sum.splits)
  from crop_ND_lengths[OF this]
  have l1: "Suc (length mn) = length (shape (s_image s))"
    and l2: "length (map int (take 1 (shape (s_image s))) @ mx) = length (shape (s_image s))"
    by (auto simp: min_def split: if_splits)
  from l1 obtain c sp where sh: "shape (s_image s) = c # sp" by (cases "shape (s_image s)") auto
  with l1 l2 have "length mn = length sp" "length mx = length sp" by simp_all
  with b f sh show ?thesis by auto
qed

lemma RandomCrop_call_Inr:
  assumes "RandomCrop_call self d s = Inr s'"
  shows "\<exists>c sp mn mx.
           shape (s_image s) = c # sp \<and> length mn = length sp \<and> length mx = length sp \<and>
           RandomCrop_bounds self d s = Inr (mn, mx) \<and>
           crop_fields (0 # mn) (int c # mx)
             (s\<lparr>s_RandomCrop_Param :=
                  Some (PStr (json_dumps (map int (c # sp), 0 # mn, int c # mx)))\<rparr>) = Inr s'"
proof -
  from assms obtain mn mx where
    b: "RandomCrop_bounds self d s = Inr (mn, mx)"
    and f: "crop_fields (0 # mn) (map int (take 1 (shape (s_image s))) @ mx)
             (s\<lparr>s_RandomCrop_Param :=
                  Some (PStr (json_dumps (map int (shape (s_image s)), 0 # mn,
                     map int (take 1 (shape (s_image s))) @ mx)))\<rparr>) = Inr s'"
    by (auto simp: RandomCrop_call_def Let_def split: sum.splits prod.splits)
  from f obtain image_t where
    "crop_ND_volume_with_bounding_box (s_image s) (0 # mn)
       (map int (take 1 (shape (s_image s))) @ mx) = Inr image_t"
    by (auto simp: crop_fields_def Let_def split: sum.splits)
  from crop_ND_lengths[OF this]
  have l1: "Suc (length mn) = length (shape (s_image s))"
    and l2: "length (map int (take 1 (shape (s_image s))) @ mx) = length (shape (s_image s))"
    by (auto simp: min_def split: if_splits)
  from l1 obtain c sp where sh: "shape (s_image s) = c # sp" by (cases "shape (s_image s)") auto
  with l1 l2 have "length mn = length sp" "length mx = length sp" by simp_all
  with b f sh show ?thesis by auto
qed

lemma CropWithBoundingBox_bounds_centred:
  assumes "CropWithBoundingBox_bounds self img = Inr (mn, mx)"
    and "bb_start self = None" and "bb_output_size self = Some os"
  shows "\<exists>b0 b1. get_ND_bounding_box img = Inr (b0, b1) \<and>
           int (length os) = int (length (shape img)) - 1 \<and>
           mn = map (\<lambda>i. max 0 (py_int_half (tl b0 ! i + tl b1 ! i + 1) - py_int_half (os ! i)))
                  [0..<length os] \<and>
           mx = map (\<lambda>i. mn ! i + os ! i) [0..<length os]"
proof -
  from assms obtain b0 b1 where bb: "get_ND_bounding_box img = Inr (b0, b1)"
    and len: "int (length os) = int (length (shape img)) - 1"
    and r: "Inr (mn, mx) =
      (let axes = [0..<nat (int (length (shape img)) - 1)];
           crop_min0 = map (\<lambda>i. py_int_half (tl b0 ! i + tl b1 ! i + 1) - py_int_half (os ! i)) axes;
           crop_min = map (\<lambda>i. max 0 (crop_min0 ! i)) axes;
           crop_max = map (\<lambda>i. crop_min ! i + os ! i) axes
       in (Inr (crop_min, crop_max) :: error + (int list \<times> int list)))"
    by (auto simp: CropWithBoundingBox_bounds_def Let_def split: sum.splits prod.splits if_splits)
  from len have n: "nat (int (length (shape img)) - 1) = length os" by simp
  from r have mn: "mn = map (\<lambda>i. max 0 (py_int_half (tl b0 ! i + tl b1 ! i + 1) - py_int_half (os ! i)))
                  [0..<length os]"
    and mx: "mx = map (\<lambda>i. mn ! i + os ! i) [0..<length os]"
    by (simp_all add: Let_def n cong: map_cong)
  with bb len show ?thesis by blast
qed

lemma CropWithBoundingBox_bounds_sized:
  assumes "CropWithBoundingBox_bounds self img = Inr (mn, mx)"
    and "bb_output_size self = Some os" and "length mn = n" and "Suc n = length (shape img)"
  shows "length mx = n \<and> (\<forall>i<n. mx ! i - mn ! i = os ! i)"
proof (cases "bb_start self")
  case None
  from CropWithBoundingBox_bounds_centred[OF assms(1) None assms(2)] assms(3,4)
  show ?thesis by auto
next
  case (Some st)
  with assms show ?thesis
    by (auto simp: CropWithBoundingBox_bounds_def Let_def split: sum.splits prod.splits if_splits)
qed

lemma RandomCrop_foreground_Inr:
  assumes "RandomCrop_foreground self d s = Inr mn" and "shape (s_image s) = c # sp"
  shows "length mn = length sp"
    and "i < length sp \<Longrightarrow> mn ! i \<le> int (sp ! i) - rc_output_size self ! i"
    and "i < length sp \<Longrightarrow> 0 \<le> int (sp ! i) - rc_output_size self ! i \<Longrightarrow> 0 \<le> mn ! i"
proof -
  from assms obtain centre where
    mn: "mn = map (\<lambda>i. min (map (max 0)
                 (map (\<lambda>i. centre ! i - py_int_half (rc_output_size self ! i)) [0..<length sp]) ! i)
                 (int (sp ! i) - rc_output_size self ! i)) [0..<length sp]"
    by (auto simp: RandomCrop_foreground_def Let_def
        split: option.splits sum.splits prod.splits if_splits)
  show "length mn = length sp" by (simp add: mn)
  show "i < length sp \<Longrightarrow> mn ! i \<le> int (sp ! i) - rc_output_size self ! i"
    by (simp add: mn)
  show "i < length sp \<Longrightarrow> 0 \<le> int (sp ! i) - rc_output_size self ! i \<Longrightarrow> 0 \<le> mn ! i"
    by (simp add: mn)
qed

lemma RandomCrop_bounds_Inr:
  assumes "RandomCrop_bounds self d s = Inr (mn, mx)" and "shape (s_image s) = c # sp"
  shows "length (rc_output_size self) = length sp"
    and "length mn = length sp"
    and "mx = map (\<lambda>i. mn ! i + rc_output_size self ! i) [0..<length sp]"
    and "i < length sp \<Longrightarrow> 0 \<le> mn ! i \<and> mn ! i \<le> int (sp ! i) - rc_output_size self ! i"
proof -
  let ?os = "rc_output_size self"
  from assms have len: "length ?os = length sp"
    by (auto simp: RandomCrop_bounds_def Let_def split: if_splits)
  from assms len obtain u where
    u: "sequence_list (map (\<lambda>i. randint 0
            (map (\<lambda>i. int (sp ! i) - ?os ! i) [0..<length sp] ! i) (d_offset d i))
          [0..<length sp]) = Inr u"
    and r: "(if rc_fg_focus self \<and> d_unit d < rc_fg_ratio self
             then RandomCrop_foreground self d s else Inr u) = Inr mn"
    and mx: "mx = map (\<lambda>i. mn ! i + ?os ! i) [0..<length sp]"
    by (auto simp: RandomCrop_bounds_def Let_def split: if_splits sum.splits)
  from sequence_list_Inr[OF u]
  have ulen: "length u = length sp"
    and ui: "\<And>i. i < length sp \<Longrightarrow> randint 0 (int (sp ! i) - ?os ! i) (d_offset d i) = Inr (u ! i)"
    by simp_all
  have urange: "\<And>i. i < length sp \<Longrightarrow> 0 \<le> u ! i \<and> u ! i \<le> int (sp ! i) - ?os ! i"
    using randint_Inr[OF ui] by blast
  show "length ?os = length sp" by (rule len)
  show "mx = map (\<lambda>i. mn ! i + ?os ! i) [0..<length sp]" by (rule mx)
  show "length mn = length sp"
    using r ulen RandomCrop_foreground_Inr(1)[OF _ assms(2)] by (auto split: if_splits)
  show "i < length sp \<Longrightarrow> 0 \<le> mn ! i \<and> mn ! i \<le> int (sp ! i) - ?os ! i"
  proof -
    assume i: "i < length sp"
    show ?thesis
    proof (cases "rc_fg_focus self \<and> d_unit d < rc_fg_ratio self")
      case True
      with r have f: "RandomCrop_foreground self d s = Inr mn" by simp
      have "0 \<le> int (sp ! i) - ?os ! i" using urange[OF i] by linarith
      with RandomCrop_foreground_Inr(2,3)[OF f assms(2) i] show ?thesis by blast
    next
      case False
      with r have "mn = u" by simp
      with urange[OF i] show ?thesis by simp
    qed
  qed
qed

section \<open>The crop extent\<close>

lemmas forward_defs =
  RandomCrop_call_def RandomCrop_bounds_def RandomCrop_foreground_def randint_def
  CropWithBoundingBox_call_def CropWithBoundingBox_bounds_def
  crop_fields_def crop_entry_def crop_ND_volume_with_bounding_box_def py_slice_def py_clip_def
  py_int_half_def json_dumps_def Let_def upt_conv_Cons


lemma uniform_crop_2_returns:
  "\<exists>s'. RandomCrop_call uniform_crop_2 draws_1 (image_only image_1x4) = Inr s'"
  by (simp add: forward_defs uniform_crop_2_def draws_1_def image_only_def image_1x4_def)

lemma centred_crop_2_returns:
  "\<exists>s'. CropWithBoundingBox_call centred_crop_2 (image_only image_1x4) = Inr s'"
  by (simp add: forward_defs centred_crop_2_def image_only_def get_ND_bounding_box_image_1x4)
    (simp add: image_1x4_def)

text \<open>
  C2. After every successful forward pass of \<^verbatim>\<open>RandomCrop\<close>, and of
  \<^verbatim>\<open>CropWithBoundingBox\<close> whenever \<^verbatim>\<open>output_size\<close> is given, the bounds that the pass
  stores are \<open>0 # crop_min\<close> and \<open>channels # crop_max\<close> with
  \<open>crop_max[i] - crop_min[i] = output_size[i]\<close> on every spatial axis.
\<close>

theorem crop_extent_is_output_size:
  "(RandomCrop_call rself d s = Inr s1 \<longrightarrow>
      shape (s_image s) \<noteq> [] \<and>
      (\<exists>crop_min crop_max.
         s_RandomCrop_Param s1 =
           Some (PStr (json_dumps (map int (shape (s_image s)), 0 # crop_min,
                                   int (hd (shape (s_image s))) # crop_max))) \<and>
         length crop_min = length (shape (s_image s)) - 1 \<and>
         length crop_max = length (shape (s_image s)) - 1 \<and>
         (\<forall>i < length (shape (s_image s)) - 1.
            crop_max ! i - crop_min ! i = rc_output_size rself ! i))) \<and>
   (CropWithBoundingBox_call bself s = Inr s2 \<and> bb_output_size bself = Some output_size \<longrightarrow>
      shape (s_image s) \<noteq> [] \<and>
      (\<exists>crop_min crop_max.
         s_CropWithBoundingBox_Param s2 =
           Some (PStr (json_dumps (map int (shape (s_image s)), 0 # crop_min,
                                   int (hd (shape (s_image s))) # crop_max))) \<and>
         length crop_min = length (shape (s_image s)) - 1 \<and>
         length crop_max = length (shape (s_image s)) - 1 \<and>
         (\<forall>i < length (shape (s_image s)) - 1.
            crop_max ! i - crop_min ! i = output_size ! i)))"
proof (intro conjI impI)
  assume run: "RandomCrop_call rself d s = Inr s1"
  from RandomCrop_call_Inr[OF run] obtain c sp mn mx where
    sh: "shape (s_image s) = c # sp" and lmn: "length mn = length sp"
    and lmx: "length mx = length sp"
    and b: "RandomCrop_bounds rself d s = Inr (mn, mx)"
    and f: "crop_fields (0 # mn) (int c # mx)
             (s\<lparr>s_RandomCrop_Param :=
                  Some (PStr (json_dumps (map int (c # sp), 0 # mn, int c # mx)))\<rparr>) = Inr s1"
    by blast
  show "shape (s_image s) \<noteq> []" by (simp add: sh)
  have p: "s_RandomCrop_Param s1 =
      Some (PStr (json_dumps (map int (shape (s_image s)), 0 # mn, int (hd (shape (s_image s))) # mx)))"
    using crop_fields_Inr(3)[OF f] by (simp add: sh)
  have "\<forall>i < length sp. mx ! i - mn ! i = rc_output_size rself ! i"
    using RandomCrop_bounds_Inr(3)[OF b sh] by simp
  with p lmn lmx show "\<exists>crop_min crop_max.
         s_RandomCrop_Param s1 =
           Some (PStr (json_dumps (map int (shape (s_image s)), 0 # crop_min,
                                   int (hd (shape (s_image s))) # crop_max))) \<and>
         length crop_min = length (shape (s_image s)) - 1 \<and>
         length crop_max = length (shape (s_image s)) - 1 \<and>
         (\<forall>i < length (shape (s_image s)) - 1.
            crop_max ! i - crop_min ! i = rc_output_size rself ! i)"
    by (intro exI[of _ mn] exI[of _ mx]) (simp add: sh)
next
  assume "CropWithBoundingBox_call bself s = Inr s2 \<and> bb_output_size bself = Some output_size"
  then have run: "CropWithBoundingBox_call bself s = Inr s2"
    and os: "bb_output_size bself = Some output_size" by simp_all
  from CropWithBoundingBox_call_Inr[OF run] obtain c sp mn mx where
    sh: "shape (s_image s) = c # sp" and lmn: "length mn = length sp"
    and lmx: "length mx = length sp"
    and b: "CropWithBoundingBox_bounds bself (s_image s) = Inr (mn, mx)"
    and f: "crop_fields (0 # mn) (int c # mx)
             (s\<lparr>s_CropWithBoundingBox_Param :=
                  Some (PStr (json_dumps (map int (c # sp), 0 # mn, int c # mx)))\<rparr>) = Inr s2"
    by blast
  show "shape (s_image s) \<noteq> []" by (simp add: sh)
  have p: "s_CropWithBoundingBox_Param s2 =
      Some (PStr (json_dumps (map int (shape (s_image s)), 0 # mn, int (hd (shape (s_image s))) # mx)))"
    using crop_fields_Inr(2)[OF f] by (simp add: sh)
  have "\<forall>i < length sp. mx ! i - mn ! i = output_size ! i"
    using CropWithBoundingBox_bounds_sized[OF b os lmn] by (simp add: sh)
  with p lmn lmx show "\<exists>crop_min crop_max.
         s_CropWithBoundingBox_Param s2 =
           Some (PStr (json_dumps (map int (shape (s_image s)), 0 # crop_min,
                                   int (hd (shape (s_image s))) # crop_max))) \<and>
         length crop_min = length (shape (s_image s)) - 1 \<and>
         length crop_max = length (shape (s_image s)) - 1 \<and>
         (\<forall>i < length (shape (s_image s)) - 1.
            crop_max ! i - crop_min ! i = output_size ! i)"
    by (intro exI[of _ mn] exI[of _ mx]) (simp add: sh)
qed

theorem crop_extent_is_output_size_witness:
  "\<exists>s1 s2.
     RandomCrop_call uniform_crop_2 draws_1 (image_only image_1x4) = Inr s1 \<and>
     CropWithBoundingBox_call centred_crop_2 (image_only image_1x4) = Inr s2 \<and>
     (\<exists>crop_min crop_max.
        s_RandomCrop_Param s1 = Some (PStr (json_dumps ([1, 4], 0 # crop_min, 1 # crop_max))) \<and>
        length crop_min = 1 \<and> length crop_max = 1 \<and> crop_max ! 0 - crop_min ! 0 = 2) \<and>
     (\<exists>crop_min crop_max.
        s_CropWithBoundingBox_Param s2 =
          Some (PStr (json_dumps ([1, 4], 0 # crop_min, 1 # crop_max))) \<and>
        length crop_min = 1 \<and> length crop_max = 1 \<and> crop_max ! 0 - crop_min ! 0 = 2)"
proof -
  obtain s1 where r1: "RandomCrop_call uniform_crop_2 draws_1 (image_only image_1x4) = Inr s1"
    using uniform_crop_2_returns by blast
  obtain s2 where r2: "CropWithBoundingBox_call centred_crop_2 (image_only image_1x4) = Inr s2"
    using centred_crop_2_returns by blast
  have os: "bb_output_size centred_crop_2 = Some [2]" by (simp add: centred_crop_2_def)
  from crop_extent_is_output_size
    [of uniform_crop_2 draws_1 "image_only image_1x4" s1 centred_crop_2 s2 "[2]"] r1 r2 os
  have "(\<exists>crop_min crop_max.
        s_RandomCrop_Param s1 = Some (PStr (json_dumps ([1, 4], 0 # crop_min, 1 # crop_max))) \<and>
        length crop_min = 1 \<and> length crop_max = 1 \<and> crop_max ! 0 - crop_min ! 0 = 2) \<and>
     (\<exists>crop_min crop_max.
        s_CropWithBoundingBox_Param s2 =
          Some (PStr (json_dumps ([1, 4], 0 # crop_min, 1 # crop_max))) \<and>
        length crop_min = 1 \<and> length crop_max = 1 \<and> crop_max ! 0 - crop_min ! 0 = 2)"
    by (simp add: image_only_def image_1x4_def uniform_crop_2_def)
  with r1 r2 show ?thesis by blast
qed

section \<open>The label and the weight\<close>

lemma crop_entry_spec:
  assumes "crop_entry e ishp cmin (m # ms) = Inr (e', cmax')"
  shows "(e = None \<longrightarrow> e' = None) \<and>
         (\<forall>a. e = Some a \<longrightarrow>
            (if tl (shape a) = tl ishp
             then \<exists>a'. crop_ND_volume_with_bounding_box a cmin (int (hd (shape a)) # ms) = Inr a'
                      \<and> e' = Some a'
             else e' = Some a))"
  using crop_entry_Inr(2-4)[OF assms] by auto

lemma crop_fields_entries:
  assumes "crop_fields cmin (m # ms) s = Inr s'"
  shows "(s_label s = None \<longrightarrow> s_label s' = None) \<and>
         (\<forall>a. s_label s = Some a \<longrightarrow>
            (if tl (shape a) = tl (shape (s_image s))
             then \<exists>a'. crop_ND_volume_with_bounding_box a cmin (int (hd (shape a)) # ms) = Inr a'
                      \<and> s_label s' = Some a'
             else s_label s' = Some a))"
    and "(s_weight s = None \<longrightarrow> s_weight s' = None) \<and>
         (\<forall>a. s_weight s = Some a \<longrightarrow>
            (if tl (shape a) = tl (shape (s_image s))
             then \<exists>a'. crop_ND_volume_with_bounding_box a cmin (int (hd (shape a)) # ms) = Inr a'
                      \<and> s_weight s' = Some a'
             else s_weight s' = Some a))"
proof -
  from crop_fields_Inr(5)[OF assms] obtain m1 c1 c2 where
    l: "crop_entry (s_label s) (shape (s_image s)) cmin (m # ms) = Inr (s_label s', c1)"
    and w: "crop_entry (s_weight s) (shape (s_image s)) cmin (m1 # ms) = Inr (s_weight s', c2)"
    by blast
  from crop_entry_spec[OF l] show "(s_label s = None \<longrightarrow> s_label s' = None) \<and>
         (\<forall>a. s_label s = Some a \<longrightarrow>
            (if tl (shape a) = tl (shape (s_image s))
             then \<exists>a'. crop_ND_volume_with_bounding_box a cmin (int (hd (shape a)) # ms) = Inr a'
                      \<and> s_label s' = Some a'
             else s_label s' = Some a))" .
  from crop_entry_spec[OF w] show "(s_weight s = None \<longrightarrow> s_weight s' = None) \<and>
         (\<forall>a. s_weight s = Some a \<longrightarrow>
            (if tl (shape a) = tl (shape (s_image s))
             then \<exists>a'. crop_ND_volume_with_bounding_box a cmin (int (hd (shape a)) # ms) = Inr a'
                      \<and> s_weight s' = Some a'
             else s_weight s' = Some a))" .
qed

text \<open>
  C8. The forward pass of either transform replaces the label (the weight) by its crop,
  taken at the spatial bounds of the image's crop and over the array's own channels,
  exactly when the array's shape without the channel axis is the image's; otherwise the
  entry is left as it was.
\<close>

theorem label_and_weight_cropped_iff_shapes_match:
  "(RandomCrop_call rself d s = Inr s1 \<longrightarrow>
      (\<exists>crop_min crop_max.
         RandomCrop_bounds rself d s = Inr (crop_min, crop_max) \<and>
         (s_label s = None \<longrightarrow> s_label s1 = None) \<and>
         (\<forall>a. s_label s = Some a \<longrightarrow>
            (if tl (shape a) = tl (shape (s_image s))
             then \<exists>a'. crop_ND_volume_with_bounding_box a (0 # crop_min)
                          (int (hd (shape a)) # crop_max) = Inr a' \<and> s_label s1 = Some a'
             else s_label s1 = Some a)) \<and>
         (s_weight s = None \<longrightarrow> s_weight s1 = None) \<and>
         (\<forall>a. s_weight s = Some a \<longrightarrow>
            (if tl (shape a) = tl (shape (s_image s))
             then \<exists>a'. crop_ND_volume_with_bounding_box a (0 # crop_min)
                          (int (hd (shape a)) # crop_max) = Inr a' \<and> s_weight s1 = Some a'
             else s_weight s1 = Some a)))) \<and>
   (CropWithBoundingBox_call bself s = Inr s2 \<longrightarrow>
      (\<exists>crop_min crop_max.
         CropWithBoundingBox_bounds bself (s_image s) = Inr (crop_min, crop_max) \<and>
         (s_label s = None \<longrightarrow> s_label s2 = None) \<and>
         (\<forall>a. s_label s = Some a \<longrightarrow>
            (if tl (shape a) = tl (shape (s_image s))
             then \<exists>a'. crop_ND_volume_with_bounding_box a (0 # crop_min)
                          (int (hd (shape a)) # crop_max) = Inr a' \<and> s_label s2 = Some a'
             else s_label s2 = Some a)) \<and>
         (s_weight s = None \<longrightarrow> s_weight s2 = None) \<and>
         (\<forall>a. s_weight s = Some a \<longrightarrow>
            (if tl (shape a) = tl (shape (s_image s))
             then \<exists>a'. crop_ND_volume_with_bounding_box a (0 # crop_min)
                          (int (hd (shape a)) # crop_max) = Inr a' \<and> s_weight s2 = Some a'
             else s_weight s2 = Some a))))"
proof (intro conjI impI)
  assume run: "RandomCrop_call rself d s = Inr s1"
  from RandomCrop_call_Inr[OF run] obtain c sp mn mx where
    b: "RandomCrop_bounds rself d s = Inr (mn, mx)"
    and f: "crop_fields (0 # mn) (int c # mx)
             (s\<lparr>s_RandomCrop_Param :=
                  Some (PStr (json_dumps (map int (c # sp), 0 # mn, int c # mx)))\<rparr>) = Inr s1"
    by blast
  from crop_fields_entries[OF f] b
  show "\<exists>crop_min crop_max.
         RandomCrop_bounds rself d s = Inr (crop_min, crop_max) \<and>
         (s_label s = None \<longrightarrow> s_label s1 = None) \<and>
         (\<forall>a. s_label s = Some a \<longrightarrow>
            (if tl (shape a) = tl (shape (s_image s))
             then \<exists>a'. crop_ND_volume_with_bounding_box a (0 # crop_min)
                          (int (hd (shape a)) # crop_max) = Inr a' \<and> s_label s1 = Some a'
             else s_label s1 = Some a)) \<and>
         (s_weight s = None \<longrightarrow> s_weight s1 = None) \<and>
         (\<forall>a. s_weight s = Some a \<longrightarrow>
            (if tl (shape a) = tl (shape (s_image s))
             then \<exists>a'. crop_ND_volume_with_bounding_box a (0 # crop_min)
                          (int (hd (shape a)) # crop_max) = Inr a' \<and> s_weight s1 = Some a'
             else s_weight s1 = Some a))"
    by (intro exI[of _ mn] exI[of _ mx]) simp
next
  assume run: "CropWithBoundingBox_call bself s = Inr s2"
  from CropWithBoundingBox_call_Inr[OF run] obtain c sp mn mx where
    b: "CropWithBoundingBox_bounds bself (s_image s) = Inr (mn, mx)"
    and f: "crop_fields (0 # mn) (int c # mx)
             (s\<lparr>s_CropWithBoundingBox_Param :=
                  Some (PStr (json_dumps (map int (c # sp), 0 # mn, int c # mx)))\<rparr>) = Inr s2"
    by blast
  from crop_fields_entries[OF f] b
  show "\<exists>crop_min crop_max.
         CropWithBoundingBox_bounds bself (s_image s) = Inr (crop_min, crop_max) \<and>
         (s_label s = None \<longrightarrow> s_label s2 = None) \<and>
         (\<forall>a. s_label s = Some a \<longrightarrow>
            (if tl (shape a) = tl (shape (s_image s))
             then \<exists>a'. crop_ND_volume_with_bounding_box a (0 # crop_min)
                          (int (hd (shape a)) # crop_max) = Inr a' \<and> s_label s2 = Some a'
             else s_label s2 = Some a)) \<and>
         (s_weight s = None \<longrightarrow> s_weight s2 = None) \<and>
         (\<forall>a. s_weight s = Some a \<longrightarrow>
            (if tl (shape a) = tl (shape (s_image s))
             then \<exists>a'. crop_ND_volume_with_bounding_box a (0 # crop_min)
                          (int (hd (shape a)) # crop_max) = Inr a' \<and> s_weight s2 = Some a'
             else s_weight s2 = Some a))"
    by (intro exI[of _ mn] exI[of _ mx]) simp
qed

lemma uniform_crop_2_labelled_returns:
  "\<exists>s'. RandomCrop_call uniform_crop_2 draws_1 labelled_sample = Inr s'"
  by (simp add: forward_defs uniform_crop_2_def draws_1_def labelled_sample_def image_1x4_def
      label_2x4_def weight_1x3_def)

lemma centred_crop_2_labelled_returns:
  "\<exists>s'. CropWithBoundingBox_call centred_crop_2 labelled_sample = Inr s'"
  by (simp add: forward_defs centred_crop_2_def labelled_sample_def get_ND_bounding_box_image_1x4)
    (simp add: forward_defs image_1x4_def label_2x4_def weight_1x3_def)

lemma uniform_crop_2_labelled_bounds:
  "RandomCrop_bounds uniform_crop_2 draws_1 labelled_sample = Inr ([1], [3])"
  by (simp add: forward_defs uniform_crop_2_def draws_1_def labelled_sample_def image_1x4_def)

lemma centred_crop_2_bounds:
  "CropWithBoundingBox_bounds centred_crop_2 image_1x4 = Inr ([3], [5])"
  by (simp add: forward_defs centred_crop_2_def get_ND_bounding_box_image_1x4)
    (simp add: image_1x4_def)

theorem label_and_weight_cropped_iff_shapes_match_witness:
  "\<exists>s1 s2.
     RandomCrop_call uniform_crop_2 draws_1 labelled_sample = Inr s1 \<and>
     CropWithBoundingBox_call centred_crop_2 labelled_sample = Inr s2 \<and>
     (\<exists>a'. crop_ND_volume_with_bounding_box label_2x4 [0, 1] [2, 3] = Inr a' \<and>
           s_label s1 = Some a') \<and>
     s_weight s1 = Some weight_1x3 \<and>
     (\<exists>a'. crop_ND_volume_with_bounding_box label_2x4 [0, 3] [2, 5] = Inr a' \<and>
           s_label s2 = Some a') \<and>
     s_weight s2 = Some weight_1x3"
proof -
  obtain s1 where r1: "RandomCrop_call uniform_crop_2 draws_1 labelled_sample = Inr s1"
    using uniform_crop_2_labelled_returns by blast
  obtain s2 where r2: "CropWithBoundingBox_call centred_crop_2 labelled_sample = Inr s2"
    using centred_crop_2_labelled_returns by blast
  have b2: "CropWithBoundingBox_bounds centred_crop_2 (s_image labelled_sample) = Inr ([3], [5])"
    using centred_crop_2_bounds by (simp add: labelled_sample_def)
  from label_and_weight_cropped_iff_shapes_match
    [of uniform_crop_2 draws_1 labelled_sample s1 centred_crop_2 s2]
    r1 r2 uniform_crop_2_labelled_bounds b2
  have "(\<exists>a'. crop_ND_volume_with_bounding_box label_2x4 [0, 1] [2, 3] = Inr a' \<and>
           s_label s1 = Some a') \<and>
     s_weight s1 = Some weight_1x3 \<and>
     (\<exists>a'. crop_ND_volume_with_bounding_box label_2x4 [0, 3] [2, 5] = Inr a' \<and>
           s_label s2 = Some a') \<and>
     s_weight s2 = Some weight_1x3"
    by (simp add: labelled_sample_def image_1x4_def label_2x4_def weight_1x3_def)
  with r1 r2 show ?thesis by blast
qed

section \<open>The stored parameter\<close>

lemma load_param_json_dumps: "load_param (PStr (json_dumps (a, b, c))) = Inr (a, b, c)"
  by (simp add: load_param_def json_dumps_def json_loads_def)

text \<open>
  C9. After every forward pass of either transform, deserialising the stored parameter
  gives the shape of the original image, \<open>crop_min\<close> with channel entry \<open>0\<close> and
  \<open>crop_max\<close> with the image's channel count as its channel entry, whatever the label and the
  weight are: the text is written (line 55, line 160) before \<^verbatim>\<open>crop_max[0]\<close> is
  overwritten for the label and the weight.
\<close>

theorem stored_parameter_records_image_channels:
  "(RandomCrop_call rself d s = Inr s1 \<longrightarrow>
      shape (s_image s) \<noteq> [] \<and>
      (\<exists>p crop_min crop_max.
         RandomCrop_bounds rself d s = Inr (crop_min, crop_max) \<and>
         s_RandomCrop_Param s1 = Some p \<and>
         load_param p = Inr (map int (shape (s_image s)), 0 # crop_min,
                             int (hd (shape (s_image s))) # crop_max))) \<and>
   (CropWithBoundingBox_call bself s = Inr s2 \<longrightarrow>
      shape (s_image s) \<noteq> [] \<and>
      (\<exists>p crop_min crop_max.
         CropWithBoundingBox_bounds bself (s_image s) = Inr (crop_min, crop_max) \<and>
         s_CropWithBoundingBox_Param s2 = Some p \<and>
         load_param p = Inr (map int (shape (s_image s)), 0 # crop_min,
                             int (hd (shape (s_image s))) # crop_max)))"
proof (intro conjI impI)
  assume run: "RandomCrop_call rself d s = Inr s1"
  from RandomCrop_call_Inr[OF run] obtain c sp mn mx where
    sh: "shape (s_image s) = c # sp"
    and b: "RandomCrop_bounds rself d s = Inr (mn, mx)"
    and f: "crop_fields (0 # mn) (int c # mx)
             (s\<lparr>s_RandomCrop_Param :=
                  Some (PStr (json_dumps (map int (c # sp), 0 # mn, int c # mx)))\<rparr>) = Inr s1"
    by blast
  show "shape (s_image s) \<noteq> []" by (simp add: sh)
  have "s_RandomCrop_Param s1 =
      Some (PStr (json_dumps (map int (c # sp), 0 # mn, int c # mx)))"
    using crop_fields_Inr(3)[OF f] by simp
  with b show "\<exists>p crop_min crop_max.
         RandomCrop_bounds rself d s = Inr (crop_min, crop_max) \<and>
         s_RandomCrop_Param s1 = Some p \<and>
         load_param p = Inr (map int (shape (s_image s)), 0 # crop_min,
                             int (hd (shape (s_image s))) # crop_max)"
    by (simp add: sh load_param_json_dumps)
next
  assume run: "CropWithBoundingBox_call bself s = Inr s2"
  from CropWithBoundingBox_call_Inr[OF run] obtain c sp mn mx where
    sh: "shape (s_image s) = c # sp"
    and b: "CropWithBoundingBox_bounds bself (s_image s) = Inr (mn, mx)"
    and f: "crop_fields (0 # mn) (int c # mx)
             (s\<lparr>s_CropWithBoundingBox_Param :=
                  Some (PStr (json_dumps (map int (c # sp), 0 # mn, int c # mx)))\<rparr>) = Inr s2"
    by blast
  show "shape (s_image s) \<noteq> []" by (simp add: sh)
  have "s_CropWithBoundingBox_Param s2 =
      Some (PStr (json_dumps (map int (c # sp), 0 # mn, int c # mx)))"
    using crop_fields_Inr(2)[OF f] by simp
  with b show "\<exists>p crop_min crop_max.
         CropWithBoundingBox_bounds bself (s_image s) = Inr (crop_min, crop_max) \<and>
         s_CropWithBoundingBox_Param s2 = Some p \<and>
         load_param p = Inr (map int (shape (s_image s)), 0 # crop_min,
                             int (hd (shape (s_image s))) # crop_max)"
    by (simp add: sh load_param_json_dumps)
qed

theorem stored_parameter_records_image_channels_witness:
  "\<exists>s1 s2 p1 p2.
     RandomCrop_call uniform_crop_2 draws_1 labelled_sample = Inr s1 \<and>
     CropWithBoundingBox_call centred_crop_2 labelled_sample = Inr s2 \<and>
     s_RandomCrop_Param s1 = Some p1 \<and> load_param p1 = Inr ([1, 4], [0, 1], [1, 3]) \<and>
     s_CropWithBoundingBox_Param s2 = Some p2 \<and> load_param p2 = Inr ([1, 4], [0, 3], [1, 5])"
proof -
  obtain s1 where r1: "RandomCrop_call uniform_crop_2 draws_1 labelled_sample = Inr s1"
    using uniform_crop_2_labelled_returns by blast
  obtain s2 where r2: "CropWithBoundingBox_call centred_crop_2 labelled_sample = Inr s2"
    using centred_crop_2_labelled_returns by blast
  have b2: "CropWithBoundingBox_bounds centred_crop_2 (s_image labelled_sample) = Inr ([3], [5])"
    using centred_crop_2_bounds by (simp add: labelled_sample_def)
  from stored_parameter_records_image_channels
    [of uniform_crop_2 draws_1 labelled_sample s1 centred_crop_2 s2]
    r1 r2 uniform_crop_2_labelled_bounds b2
  have "\<exists>p1 p2.
     s_RandomCrop_Param s1 = Some p1 \<and> load_param p1 = Inr ([1, 4], [0, 1], [1, 3]) \<and>
     s_CropWithBoundingBox_Param s2 = Some p2 \<and> load_param p2 = Inr ([1, 4], [0, 3], [1, 5])"
    by (simp add: labelled_sample_def image_1x4_def)
  with r1 r2 show ?thesis by blast
qed

section \<open>The inverse reads the first stored parameter\<close>






section \<open>The centred crop\<close>

lemma crop_ND_total:
  "length a = length (shape v) \<Longrightarrow> length b = length (shape v) \<Longrightarrow>
     \<exists>r. crop_ND_volume_with_bounding_box v a b = Inr r"
  by (simp add: crop_ND_volume_with_bounding_box_def Let_def)

lemma crop_entry_total:
  assumes "\<forall>a. e = Some a \<longrightarrow> shape a \<noteq> []"
    and "length cmin = length ishp" and "length ms = length (tl ishp)" and "ishp \<noteq> []"
  shows "\<exists>e' m'. crop_entry e ishp cmin (m # ms) = Inr (e', m' # ms)"
proof (cases e)
  case None
  then show ?thesis by (simp add: crop_entry_def)
next
  case (Some a)
  show ?thesis
  proof (cases "tl (shape a) = tl ishp")
    case False
    with Some show ?thesis by (simp add: crop_entry_def)
  next
    case True
    from assms(1) Some obtain c rest where sh: "shape a = c # rest" by (cases "shape a") auto
    from True sh assms(2-4) have "length cmin = length (shape a)"
      and "length (int c # ms) = length (shape a)"
      by (cases ishp; simp)+
    from crop_ND_total[OF this] obtain r where
      "crop_ND_volume_with_bounding_box a cmin (int c # ms) = Inr r" by blast
    with Some True sh show ?thesis by (simp add: crop_entry_def)
  qed
qed

lemma crop_fields_total:
  assumes "shape (s_image s) = c # sp" and "length mn = length sp" and "length mx = length sp"
    and "\<forall>a. s_label s = Some a \<longrightarrow> shape a \<noteq> []"
    and "\<forall>a. s_weight s = Some a \<longrightarrow> shape a \<noteq> []"
  shows "\<exists>s'. crop_fields (0 # mn) (m # mx) s = Inr s'"
proof -
  from crop_ND_total[of "0 # mn" "s_image s" "m # mx"] assms(1-3) obtain image_t where
    i: "crop_ND_volume_with_bounding_box (s_image s) (0 # mn) (m # mx) = Inr image_t" by auto
  from crop_entry_total[OF assms(4), of "0 # mn" "shape (s_image s)" mx m] assms(1-3)
  obtain e1 m1 where
    l: "crop_entry (s_label s) (shape (s_image s)) (0 # mn) (m # mx) = Inr (e1, m1 # mx)" by auto
  from crop_entry_total[OF assms(5), of "0 # mn" "shape (s_image s)" mx m1] assms(1-3)
  obtain e2 m2 where
    w: "crop_entry (s_weight s) (shape (s_image s)) (0 # mn) (m1 # mx) = Inr (e2, m2 # mx)" by auto
  from i l w show ?thesis by (simp add: crop_fields_def Let_def)
qed





section \<open>The clamping of the bounds\<close>

lemma centred_crop_4_bounds:
  "CropWithBoundingBox_bounds centred_crop_4 image_1x4 = Inr ([2], [6])"
  by (simp add: forward_defs centred_crop_4_def get_ND_bounding_box_image_1x4)
    (simp add: image_1x4_def)

lemma start_minus_2_crop_3_bounds:
  "CropWithBoundingBox_bounds start_minus_2_crop_3 image_1x4 = Inr ([- 2], [1])"
  by (simp add: forward_defs start_minus_2_crop_3_def get_ND_bounding_box_image_1x4)
    (simp add: image_1x4_def)

lemma centred_crop_4_returns:
  "CropWithBoundingBox_call centred_crop_4 (image_only image_1x4) =
     Inr (projr (CropWithBoundingBox_call centred_crop_4 (image_only image_1x4)))"
  by (simp add: CropWithBoundingBox_call_def image_only_def centred_crop_4_bounds)
    (simp add: forward_defs image_1x4_def)

lemma start_minus_2_crop_3_returns:
  "CropWithBoundingBox_call start_minus_2_crop_3 (image_only image_1x4) =
     Inr (projr (CropWithBoundingBox_call start_minus_2_crop_3 (image_only image_1x4)))"
  by (simp add: CropWithBoundingBox_call_def image_only_def start_minus_2_crop_3_bounds)
    (simp add: forward_defs image_1x4_def)

text \<open>
  The claim C4 as it is stated: after every forward pass \<open>crop_min[i] \<ge> 0\<close>, and the
  centred crop of \<^verbatim>\<open>CropWithBoundingBox\<close> has \<open>crop_max[i] \<le> input_shape[i]\<close>. On the image
  of four voxels whose non-zero voxel is the last, the centred crop of size \<open>4\<close> returns
  with the bounds \<open>[2, 6)\<close>, past the end of the image: line 42 clamps from below only.
  With the explicit start \<open>-2\<close> the pass returns with \<open>crop_min = -2\<close>: line 46 takes the
  start as it is.
\<close>

theorem crop_bounds_clamped_counterexample:
  "shape image_1x4 = [1, 4] \<and>
   CropWithBoundingBox_bounds centred_crop_4 image_1x4 = Inr ([2], [6]) \<and>
   \<not> isl (CropWithBoundingBox_call centred_crop_4 (image_only image_1x4)) \<and>
   CropWithBoundingBox_bounds start_minus_2_crop_3 image_1x4 = Inr ([- 2], [1]) \<and>
   \<not> isl (CropWithBoundingBox_call start_minus_2_crop_3 (image_only image_1x4))"
proof -
  have sh: "shape image_1x4 = [1, 4]" by (simp add: image_1x4_def)
  have r1: "\<not> isl (CropWithBoundingBox_call centred_crop_4 (image_only image_1x4))"
    by (subst centred_crop_4_returns) simp
  have r2: "\<not> isl (CropWithBoundingBox_call start_minus_2_crop_3 (image_only image_1x4))"
    by (subst start_minus_2_crop_3_returns) simp
  from sh centred_crop_4_bounds r1 start_minus_2_crop_3_bounds r2 show ?thesis by blast
qed

lemma CropWithBoundingBox_bounds_nonneg:
  assumes "CropWithBoundingBox_bounds self img = Inr (mn, mx)" and "bb_start self = None"
    and "i < length mn"
  shows "0 \<le> mn ! i"
proof (cases "bb_output_size self")
  case None
  with assms obtain b0 b1 where bb: "get_ND_bounding_box img = Inr (b0, b1)" and mn: "mn = tl b0"
    by (auto simp: CropWithBoundingBox_bounds_def Let_def split: sum.splits prod.splits)
  from assms(3) mn have k: "i + 1 < length b0" by simp
  with get_ND_bounding_box_Inr[OF bb] have "0 \<le> b0 ! (i + 1)" by simp
  with k show ?thesis by (simp add: mn nth_tl)
next
  case (Some os)
  from CropWithBoundingBox_bounds_centred[OF assms(1,2) Some] assms(3)
  show ?thesis by auto
qed

text \<open>
  C4, amended. After every forward pass of \<^verbatim>\<open>RandomCrop\<close> that returns, in the uniform and
  in the foreground branch alike, every spatial axis has
  \<open>0 \<le> crop_min[i] \<le> input_shape[i] - output_size[i]\<close> and so
  \<open>crop_max[i] \<le> input_shape[i]\<close>. After every forward pass of \<^verbatim>\<open>CropWithBoundingBox\<close>
  with \<^verbatim>\<open>start\<close> none that returns, every spatial axis has \<open>0 \<le> crop_min[i]\<close>.
\<close>

theorem crop_bounds_clamped:
  "(RandomCrop_call rself d s = Inr s1 \<longrightarrow>
      (\<exists>crop_min crop_max.
         RandomCrop_bounds rself d s = Inr (crop_min, crop_max) \<and>
         length crop_min = length (shape (s_image s)) - 1 \<and>
         length crop_max = length (shape (s_image s)) - 1 \<and>
         (\<forall>i < length (shape (s_image s)) - 1.
            0 \<le> crop_min ! i \<and>
            crop_min ! i \<le> int (shape (s_image s) ! (i + 1)) - rc_output_size rself ! i \<and>
            crop_max ! i \<le> int (shape (s_image s) ! (i + 1))))) \<and>
   (CropWithBoundingBox_call bself s = Inr s2 \<and> bb_start bself = None \<longrightarrow>
      (\<exists>crop_min crop_max.
         CropWithBoundingBox_bounds bself (s_image s) = Inr (crop_min, crop_max) \<and>
         length crop_min = length (shape (s_image s)) - 1 \<and>
         (\<forall>i < length (shape (s_image s)) - 1. 0 \<le> crop_min ! i)))"
proof (intro conjI impI)
  assume run: "RandomCrop_call rself d s = Inr s1"
  from RandomCrop_call_Inr[OF run] obtain c sp mn mx where
    sh: "shape (s_image s) = c # sp" and lmn: "length mn = length sp"
    and lmx: "length mx = length sp"
    and b: "RandomCrop_bounds rself d s = Inr (mn, mx)"
    by blast
  have "\<forall>i < length sp. 0 \<le> mn ! i \<and> mn ! i \<le> int (sp ! i) - rc_output_size rself ! i \<and>
           mx ! i \<le> int (sp ! i)"
  proof (intro allI impI)
    fix i assume i: "i < length sp"
    from RandomCrop_bounds_Inr(4)[OF b sh i]
    have r: "0 \<le> mn ! i \<and> mn ! i \<le> int (sp ! i) - rc_output_size rself ! i" .
    have "mx ! i = mn ! i + rc_output_size rself ! i"
      using RandomCrop_bounds_Inr(3)[OF b sh] i by simp
    with r show "0 \<le> mn ! i \<and> mn ! i \<le> int (sp ! i) - rc_output_size rself ! i \<and>
           mx ! i \<le> int (sp ! i)" by linarith
  qed
  with b lmn lmx show "\<exists>crop_min crop_max.
         RandomCrop_bounds rself d s = Inr (crop_min, crop_max) \<and>
         length crop_min = length (shape (s_image s)) - 1 \<and>
         length crop_max = length (shape (s_image s)) - 1 \<and>
         (\<forall>i < length (shape (s_image s)) - 1.
            0 \<le> crop_min ! i \<and>
            crop_min ! i \<le> int (shape (s_image s) ! (i + 1)) - rc_output_size rself ! i \<and>
            crop_max ! i \<le> int (shape (s_image s) ! (i + 1)))"
    by (intro exI[of _ mn] exI[of _ mx]) (simp add: sh)
next
  assume "CropWithBoundingBox_call bself s = Inr s2 \<and> bb_start bself = None"
  then have run: "CropWithBoundingBox_call bself s = Inr s2" and st: "bb_start bself = None"
    by simp_all
  from CropWithBoundingBox_call_Inr[OF run] obtain c sp mn mx where
    sh: "shape (s_image s) = c # sp" and lmn: "length mn = length sp"
    and b: "CropWithBoundingBox_bounds bself (s_image s) = Inr (mn, mx)"
    by blast
  have "\<forall>i < length sp. 0 \<le> mn ! i"
    using CropWithBoundingBox_bounds_nonneg[OF b st] lmn by simp
  with b lmn show "\<exists>crop_min crop_max.
         CropWithBoundingBox_bounds bself (s_image s) = Inr (crop_min, crop_max) \<and>
         length crop_min = length (shape (s_image s)) - 1 \<and>
         (\<forall>i < length (shape (s_image s)) - 1. 0 \<le> crop_min ! i)"
    by (intro exI[of _ mn] exI[of _ mx]) (simp add: sh)
qed

theorem crop_bounds_clamped_witness:
  "\<exists>s1 s2.
     RandomCrop_call uniform_crop_2 draws_1 labelled_sample = Inr s1 \<and>
     CropWithBoundingBox_call centred_crop_2 labelled_sample = Inr s2 \<and>
     RandomCrop_bounds uniform_crop_2 draws_1 labelled_sample = Inr ([1], [3]) \<and>
     (0 :: int) \<le> 1 \<and> (1 :: int) \<le> 4 - 2 \<and> (3 :: int) \<le> 4 \<and>
     CropWithBoundingBox_bounds centred_crop_2 image_1x4 = Inr ([3], [5]) \<and> (0 :: int) \<le> 3"
proof -
  obtain s1 where r1: "RandomCrop_call uniform_crop_2 draws_1 labelled_sample = Inr s1"
    using uniform_crop_2_labelled_returns by blast
  obtain s2 where r2: "CropWithBoundingBox_call centred_crop_2 labelled_sample = Inr s2"
    using centred_crop_2_labelled_returns by blast
  have st: "bb_start centred_crop_2 = None" by (simp add: centred_crop_2_def)
  from crop_bounds_clamped [of uniform_crop_2 draws_1 labelled_sample s1 centred_crop_2 s2]
    r1 r2 st
  have "(\<exists>crop_min crop_max.
         RandomCrop_bounds uniform_crop_2 draws_1 labelled_sample = Inr (crop_min, crop_max)) \<and>
        (\<exists>crop_min crop_max.
         CropWithBoundingBox_bounds centred_crop_2 (s_image labelled_sample) =
           Inr (crop_min, crop_max))"
    by blast
  with r1 r2 uniform_crop_2_labelled_bounds centred_crop_2_bounds show ?thesis
    by auto
qed

section \<open>The length checks\<close>

text \<open>
  The length checks that the code does make. Each raises before the sample is assigned to.
  \<^verbatim>\<open>CropWithBoundingBox\<close> computes the bounding box first, which needs a non-zero voxel.
\<close>

lemma RandomCrop_output_size_length_asserted:
  "int (length (rc_output_size self)) \<noteq> int (length (shape (s_image s))) - 1 \<Longrightarrow>
     RandomCrop_call self d s = Inl (AssertionError, s)"
  by (simp add: RandomCrop_call_def RandomCrop_bounds_def Let_def)

lemma RandomCrop_mask_label_asserted:
  "p_mask_label params = PyOther \<Longrightarrow> RandomCrop_init params = Inl AssertionError"
  by (simp add: RandomCrop_init_def split: pyseq.splits)

lemma CropWithBoundingBox_output_size_length_asserted:
  "bb_start self = None \<Longrightarrow> bb_output_size self = Some os \<Longrightarrow>
   nonzero_indices (s_image s) \<noteq> [] \<Longrightarrow>
   int (length os) \<noteq> int (length (shape (s_image s))) - 1 \<Longrightarrow>
     CropWithBoundingBox_call self s = Inl (AssertionError, s)"
  by (simp add: CropWithBoundingBox_call_def CropWithBoundingBox_bounds_def
      get_ND_bounding_box_def Let_def)

lemma CropWithBoundingBox_start_length_asserted:
  "bb_start self = Some st \<Longrightarrow> nonzero_indices (s_image s) \<noteq> [] \<Longrightarrow>
   int (length st) \<noteq> int (length (shape (s_image s))) - 1 \<Longrightarrow>
     CropWithBoundingBox_call self s = Inl (AssertionError, s)"
  by (simp add: CropWithBoundingBox_call_def CropWithBoundingBox_bounds_def
      get_ND_bounding_box_def Let_def)

text \<open>
  C7. The claim: every forward call fails with an assertion whenever the length of
  \<^verbatim>\<open>output_size\<close> differs from the number of spatial axes. With \<^verbatim>\<open>start\<close> and
  \<^verbatim>\<open>output_size\<close> both given, \<^verbatim>\<open>CropWithBoundingBox\<close> makes no such check (the assertion of
  line 48 stands in the branch where \<^verbatim>\<open>output_size\<close> is \<^verbatim>\<open>None\<close>): on an image with
  one spatial axis, two output sizes give a call that returns, with the bounds \<open>[0, 2)\<close>
  stored, and no output size gives an \<open>IndexError\<close> from line 52.
\<close>

theorem output_size_length_unchecked_with_start:
  "\<not> isl (CropWithBoundingBox_call start_0_sizes_2_9 (image_only image_1x4)) \<and>
   s_CropWithBoundingBox_Param
     (projr (CropWithBoundingBox_call start_0_sizes_2_9 (image_only image_1x4))) =
     Some (PStr (json_dumps ([1, 4], [0, 0], [1, 2]))) \<and>
   CropWithBoundingBox_call start_0_sizes_empty (image_only image_1x4) =
     Inl (IndexError, image_only image_1x4)"
proof -
  have "CropWithBoundingBox_call start_0_sizes_2_9 (image_only image_1x4) =
        Inr (projr (CropWithBoundingBox_call start_0_sizes_2_9 (image_only image_1x4))) \<and>
        s_CropWithBoundingBox_Param
          (projr (CropWithBoundingBox_call start_0_sizes_2_9 (image_only image_1x4))) =
          Some (PStr (json_dumps ([1, 4], [0, 0], [1, 2])))"
    by (simp add: forward_defs start_0_sizes_2_9_def image_only_def
        get_ND_bounding_box_image_1x4)
      (simp add: forward_defs image_1x4_def)
  then have ret: "CropWithBoundingBox_call start_0_sizes_2_9 (image_only image_1x4) =
        Inr (projr (CropWithBoundingBox_call start_0_sizes_2_9 (image_only image_1x4)))"
    and par: "s_CropWithBoundingBox_Param
          (projr (CropWithBoundingBox_call start_0_sizes_2_9 (image_only image_1x4))) =
          Some (PStr (json_dumps ([1, 4], [0, 0], [1, 2])))"
    by simp_all
  have ni: "\<not> isl (CropWithBoundingBox_call start_0_sizes_2_9 (image_only image_1x4))"
    by (subst ret) simp
  have ie: "CropWithBoundingBox_call start_0_sizes_empty (image_only image_1x4) =
     Inl (IndexError, image_only image_1x4)"
    by (simp add: forward_defs start_0_sizes_empty_def image_only_def
        get_ND_bounding_box_image_1x4)
      (simp add: image_1x4_def)
  from ni par ie show ?thesis by blast
qed

section \<open>Facts about the foreground mask\<close>

lemma fold_mask_shape:
  "shape (fold (\<lambda>temp_lab mask.
             \<lparr>shape = shape mask,
              item = (\<lambda>idx. max (item mask idx) (if item label idx = temp_lab then 1 else 0))\<rparr>)
       ml (m0 :: int ndarray)) = shape m0"
  by (induction ml arbitrary: m0) simp_all

lemma fold_mask_item:
  "0 \<le> item m0 idx \<Longrightarrow>
   item (fold (\<lambda>temp_lab mask.
             \<lparr>shape = shape mask,
              item = (\<lambda>idx. max (item mask idx) (if item label idx = temp_lab then 1 else 0))\<rparr>)
       ml (m0 :: int ndarray)) idx =
   max (item m0 idx) (if item label idx \<in> set ml then 1 else 0)"
proof (induction ml arbitrary: m0)
  case Nil
  then show ?case by simp
next
  case (Cons a ml)
  let ?m1 = "\<lparr>shape = shape m0,
      item = (\<lambda>idx. max (item m0 idx) (if item label idx = a then 1 else (0 :: int)))\<rparr>"
  have "0 \<le> item ?m1 idx" using Cons.prems by simp
  from Cons.IH[OF this] show ?case by auto
qed

lemma foreground_mask_shape: "shape (foreground_mask label ml) = shape label"
  by (simp add: foreground_mask_def fold_mask_shape)

lemma foreground_mask_item:
  "item (foreground_mask label ml) idx = (if item label idx \<in> set ml then 1 else 0)"
  by (simp add: foreground_mask_def fold_mask_item)

lemma sum_list_nonneg_member:
  "(\<forall>x \<in> set xs. (0 :: int) \<le> x) \<Longrightarrow> y \<in> set xs \<Longrightarrow> y \<le> sum_list xs"
proof (induction xs)
  case Nil
  then show ?case by simp
next
  case (Cons a xs)
  have "0 \<le> sum_list xs" using Cons.prems(1) by (simp add: sum_list_nonneg)
  with Cons show ?case by auto
qed

lemma array_sum_foreground_mask_pos:
  assumes "valid_index (shape label) v" and "item label v \<in> set ml"
  shows "array_sum (foreground_mask label ml) \<noteq> 0"
proof -
  let ?m = "foreground_mask label ml"
  let ?xs = "map (item ?m) (ndindex (shape ?m))"
  have "v \<in> set (ndindex (shape ?m))" using assms(1)
    by (simp add: set_ndindex foreground_mask_shape)
  then have "item ?m v \<in> set ?xs" by simp
  moreover have "\<forall>x \<in> set ?xs. 0 \<le> x" by (auto simp: foreground_mask_item)
  ultimately have "item ?m v \<le> sum_list ?xs" by (rule sum_list_nonneg_member[rotated])
  moreover have "item ?m v = 1" using assms(2) by (simp add: foreground_mask_item)
  ultimately show ?thesis by (simp add: array_sum_def)
qed

lemma nonzero_indices_foreground_mask:
  assumes "valid_index (shape label) v" and "item label v \<in> set ml"
    and "\<forall>idx. valid_index (shape label) idx \<and> item label idx \<in> set ml \<longrightarrow> idx = v"
  shows "set (nonzero_indices (foreground_mask label ml)) = {v}"
proof (rule set_eqI)
  fix idx
  have "idx \<in> set (nonzero_indices (foreground_mask label ml)) \<longleftrightarrow>
        valid_index (shape label) idx \<and> item label idx \<in> set ml"
    by (simp add: nonzero_indices_def set_ndindex foreground_mask_shape foreground_mask_item)
  also have "\<dots> \<longleftrightarrow> idx = v" using assms by blast
  finally show "idx \<in> set (nonzero_indices (foreground_mask label ml)) \<longleftrightarrow> idx \<in> {v}"
    by simp
qed

lemma get_ND_bounding_box_single:
  assumes "set (nonzero_indices m) = {v}"
  shows "get_ND_bounding_box m =
           Inr (map (\<lambda>k. int (v ! k)) [0..<length (shape m)],
                map (\<lambda>k. int (v ! k) + 1) [0..<length (shape m)])"
proof -
  have ne: "nonzero_indices m \<noteq> []"
  proof
    assume "nonzero_indices m = []"
    then have "set (nonzero_indices m) = {}" by simp
    with assms show False by simp
  qed
  have mn: "Min (set (map (\<lambda>idx. idx ! k) (nonzero_indices m))) = v ! k" for k
    by (simp add: assms)
  have mx: "Max (set (map (\<lambda>idx. idx ! k) (nonzero_indices m))) = v ! k" for k
    by (simp add: assms)
  show ?thesis
    unfolding get_ND_bounding_box_def Let_def mn mx using ne by simp
qed

lemma focus_contains:
  assumes "x \<le> r" and "r \<le> x + 1" and "2 \<le> os" and "os \<le> S" and "0 \<le> x" and "x < S"
  shows "min (max 0 (r - py_int_half os)) (S - os) \<le> x \<and>
         x < min (max 0 (r - py_int_half os)) (S - os) + os"
proof -
  have h: "py_int_half os = os div 2" using assms(3) by (simp add: py_int_half_def)
  have h1: "1 \<le> os div 2" and h2: "2 * (os div 2) \<le> os" using assms(3) by simp_all
  show ?thesis unfolding h min_def max_def using assms h1 h2 by auto
qed

lemma tl_map_upt_Suc: "tl (map f [0..<Suc n]) = map (\<lambda>i. f (Suc i)) [0..<n]"
  by (simp add: map_upt_Suc del: upt_Suc)

lemma RandomCrop_foreground_single:
  assumes img: "shape (s_image s) = c # sp"
    and lab: "s_label s = Some label" and lsh: "shape label = cl # sp"
    and ml: "rc_mask_label self = Some ml"
    and v: "valid_index (shape label) v" and fg: "item label v \<in> set ml"
    and uniq: "\<forall>idx. valid_index (shape label) idx \<and> item label idx \<in> set ml \<longrightarrow> idx = v"
    and len: "length (rc_output_size self) = length sp"
    and os: "\<forall>i < length sp. 2 \<le> rc_output_size self ! i \<and> rc_output_size self ! i \<le> int (sp ! i)"
  shows "\<exists>mn. RandomCrop_foreground self d s = Inr mn \<and> length mn = length sp \<and>
           (\<forall>i < length sp. mn ! i \<le> int (v ! (i + 1)) \<and>
                             int (v ! (i + 1)) < mn ! i + rc_output_size self ! i)"
proof -
  let ?n = "length sp"
  let ?os = "rc_output_size self"
  let ?mask = "foreground_mask label ml"
  have sum: "array_sum ?mask \<noteq> 0" by (rule array_sum_foreground_mask_pos[OF v fg])
  have nz: "set (nonzero_indices ?mask) = {v}"
    by (rule nonzero_indices_foreground_mask[OF v fg uniq])
  have rank: "length (shape ?mask) = Suc ?n" by (simp add: foreground_mask_shape lsh)
  have bb: "get_ND_bounding_box ?mask =
      Inr (map (\<lambda>k. int (v ! k)) [0..<Suc ?n], map (\<lambda>k. int (v ! k) + 1) [0..<Suc ?n])"
    using get_ND_bounding_box_single[OF nz] by (simp only: rank)
  let ?bb_min = "map (\<lambda>i. int (v ! Suc i)) [0..<?n]"
  let ?bb_max = "map (\<lambda>i. int (v ! Suc i) + 1) [0..<?n]"
  let ?draws = "map (\<lambda>i. randint (?bb_min ! i) (?bb_max ! i) (d_focus d i)) [0..<?n]"
  have "\<forall>i < length ?draws. \<exists>r. ?draws ! i = Inr r"
    by (simp add: randint_total)
  from sequence_list_total[OF this] obtain centre where
    seq: "sequence_list ?draws = Inr centre" by blast
  from sequence_list_Inr[OF seq]
  have clen: "length centre = ?n"
    and ci: "\<And>i. i < ?n \<Longrightarrow> randint (int (v ! Suc i)) (int (v ! Suc i) + 1) (d_focus d i) = Inr (centre ! i)"
    by simp_all
  let ?mn = "map (\<lambda>i. min (map (max 0)
                 (map (\<lambda>i. centre ! i - py_int_half (?os ! i)) [0..<?n]) ! i)
                 (int (sp ! i) - ?os ! i)) [0..<?n]"
  have run: "RandomCrop_foreground self d s = Inr ?mn"
    unfolding RandomCrop_foreground_def Let_def
    by (simp only: img lab ml option.case sum bb seq if_False sum.case prod.case
        tl_map_upt_Suc length_map length_upt)
      (simp add: seq del: upt_Suc)
  have cont: "\<forall>i < ?n. ?mn ! i \<le> int (v ! (i + 1)) \<and> int (v ! (i + 1)) < ?mn ! i + ?os ! i"
  proof (intro allI impI)
    fix i assume i: "i < ?n"
    from randint_Inr[OF ci[OF i]]
    have r: "int (v ! Suc i) \<le> centre ! i" "centre ! i \<le> int (v ! Suc i) + 1" by simp_all
    from v lsh i have vi: "v ! Suc i < sp ! i"
      by (auto simp: valid_index_nth)
    from os i have o: "2 \<le> ?os ! i" "?os ! i \<le> int (sp ! i)" by simp_all
    from focus_contains[OF r o, of ] vi
    have "min (max 0 (centre ! i - py_int_half (?os ! i))) (int (sp ! i) - ?os ! i) \<le> int (v ! Suc i) \<and>
         int (v ! Suc i) < min (max 0 (centre ! i - py_int_half (?os ! i))) (int (sp ! i) - ?os ! i) + ?os ! i"
      by simp
    with i show "?mn ! i \<le> int (v ! (i + 1)) \<and> int (v ! (i + 1)) < ?mn ! i + ?os ! i"
      by simp
  qed
  from run cont show ?thesis by (intro exI[of _ ?mn]) simp
qed

section \<open>The foreground-focused crop\<close>

lemmas mask_defs =
  foreground_mask_def array_sum_def get_ND_bounding_box_def nonzero_indices_def

lemma foreground_crop_1_bounds:
  "RandomCrop_bounds (foreground_crop 1) draws_1 labelled_sample = Inr ([3], [4])"
  by (simp add: forward_defs mask_defs foreground_crop_def draws_1_def labelled_sample_def
      image_1x4_def label_2x4_def)

lemma foreground_crop_2_long_bounds:
  "RandomCrop_bounds (foreground_crop 2) draws_1 long_label_sample = Inr ([2], [4])"
  by (simp add: forward_defs mask_defs foreground_crop_def draws_1_def long_label_sample_def
      image_1x4_def label_1x6_def)

lemma foreground_crop_2_bounds:
  "RandomCrop_bounds (foreground_crop 2) draws_1 labelled_sample = Inr ([2], [4])"
  by (simp add: forward_defs mask_defs foreground_crop_def draws_1_def labelled_sample_def
      image_1x4_def label_2x4_def)

lemma foreground_crop_1_returns:
  "RandomCrop_call (foreground_crop 1) draws_1 labelled_sample =
     Inr (projr (RandomCrop_call (foreground_crop 1) draws_1 labelled_sample))"
  by (simp add: RandomCrop_call_def foreground_crop_1_bounds)
    (simp add: forward_defs labelled_sample_def image_1x4_def label_2x4_def weight_1x3_def)

lemma foreground_crop_2_long_returns:
  "RandomCrop_call (foreground_crop 2) draws_1 long_label_sample =
     Inr (projr (RandomCrop_call (foreground_crop 2) draws_1 long_label_sample))"
  by (simp add: RandomCrop_call_def foreground_crop_2_long_bounds)
    (simp add: forward_defs long_label_sample_def image_1x4_def label_1x6_def)

text \<open>
  The claim C6 as it is stated: with foreground focus always taken and a label that has
  exactly one foreground voxel, the crop contains the voxel. The centre of the crop is drawn
  from \<open>[bb_min, bb_max]\<close>, both ends included, and \<open>bb_max\<close> is one past the voxel. With
  \<open>output_size = [1]\<close> and the voxel at position \<open>2\<close> of four, the draw \<open>3\<close> gives the crop
  \<open>[3, 4)\<close>. And where the label is longer than the image, the voxel at position \<open>5\<close> of the
  label is outside every crop of an image of four voxels: the crop here is \<open>[2, 4)\<close>.
\<close>

theorem foreground_crop_contains_voxel_counterexample:
  "nonzero_indices (foreground_mask label_2x4 [1]) = [[1, 2]] \<and>
   RandomCrop_bounds (foreground_crop 1) draws_1 labelled_sample = Inr ([3], [4]) \<and>
   \<not> isl (RandomCrop_call (foreground_crop 1) draws_1 labelled_sample) \<and>
   nonzero_indices (foreground_mask label_1x6 [1]) = [[0, 5]] \<and>
   RandomCrop_bounds (foreground_crop 2) draws_1 long_label_sample = Inr ([2], [4]) \<and>
   \<not> isl (RandomCrop_call (foreground_crop 2) draws_1 long_label_sample)"
proof -
  have v1: "nonzero_indices (foreground_mask label_2x4 [1]) = [[1, 2]]"
    by (simp add: mask_defs label_2x4_def upt_conv_Cons)
  have v2: "nonzero_indices (foreground_mask label_1x6 [1]) = [[0, 5]]"
    by (simp add: mask_defs label_1x6_def upt_conv_Cons)
  have r1: "\<not> isl (RandomCrop_call (foreground_crop 1) draws_1 labelled_sample)"
    by (subst foreground_crop_1_returns) simp
  have r2: "\<not> isl (RandomCrop_call (foreground_crop 2) draws_1 long_label_sample)"
    by (subst foreground_crop_2_long_returns) simp
  from v1 foreground_crop_1_bounds r1 v2 foreground_crop_2_long_bounds r2
  show ?thesis by blast
qed

lemma RandomCrop_uniform_total:
  assumes "\<forall>i < n. os ! i \<le> int (sp ! i)"
  shows "\<exists>u. sequence_list (map (\<lambda>i. randint 0
            (map (\<lambda>i. int (sp ! i) - os ! i) [0..<n] ! i) (d_offset d i)) [0..<n]) = Inr u"
proof (rule sequence_list_total)
  show "\<forall>i<length (map (\<lambda>i. randint 0 (map (\<lambda>i. int (sp ! i) - os ! i) [0..<n] ! i)
          (d_offset d i)) [0..<n]).
       \<exists>v. map (\<lambda>i. randint 0 (map (\<lambda>i. int (sp ! i) - os ! i) [0..<n] ! i)
          (d_offset d i)) [0..<n] ! i = Inr v"
    using assms by (simp add: randint_total)
qed

text \<open>
  C6, amended. For every sample whose label has an axis and the image's shape without
  the channel axis, and contains exactly one voxel with a value of \<^verbatim>\<open>mask_label\<close>,
  \<^verbatim>\<open>RandomCrop\<close> with foreground focus, \<^verbatim>\<open>fg_ratio = 1.0\<close> and
  \<open>2 \<le> output_size[i] \<le> input_shape[i]\<close> on every spatial axis returns for every outcome
  of the random draws, with bounds \<open>[crop_min, crop_max)\<close> that contain the spatial
  coordinates of that voxel. (The weight, when present, has an axis.)
\<close>

theorem foreground_crop_contains_voxel:
  assumes "rc_fg_focus self" and "rc_fg_ratio self = 1" and "d_unit d < 1"
    and "rc_mask_label self = Some mask_label"
    and "s_label s = Some label"
    and "shape (s_image s) \<noteq> []" and "shape label \<noteq> []"
    and "tl (shape label) = tl (shape (s_image s))"
    and "valid_index (shape label) voxel" and "item label voxel \<in> set mask_label"
    and "\<forall>idx. valid_index (shape label) idx \<and> item label idx \<in> set mask_label
            \<longrightarrow> idx = voxel"
    and "length (rc_output_size self) = length (shape (s_image s)) - 1"
    and "\<forall>i < length (rc_output_size self).
            2 \<le> rc_output_size self ! i \<and>
            rc_output_size self ! i \<le> int (shape (s_image s) ! (i + 1))"
    and "\<forall>a. s_weight s = Some a \<longrightarrow> shape a \<noteq> []"
  shows "\<exists>s' crop_min crop_max.
           RandomCrop_call self d s = Inr s' \<and>
           RandomCrop_bounds self d s = Inr (crop_min, crop_max) \<and>
           length crop_min = length (rc_output_size self) \<and>
           length crop_max = length (rc_output_size self) \<and>
           (\<forall>i < length (rc_output_size self).
              crop_min ! i \<le> int (voxel ! (i + 1)) \<and> int (voxel ! (i + 1)) < crop_max ! i)"
proof -
  let ?os = "rc_output_size self"
  from assms(6) obtain c sp where img: "shape (s_image s) = c # sp"
    by (cases "shape (s_image s)") auto
  from assms(7,8) img obtain cl where lsh: "shape label = cl # sp"
    by (cases "shape label") auto
  from assms(12) img have len: "length ?os = length sp" by simp
  from assms(13) img len
  have os: "\<forall>i < length sp. 2 \<le> ?os ! i \<and> ?os ! i \<le> int (sp ! i)" by simp
  from RandomCrop_foreground_single[OF img assms(5) lsh assms(4) assms(9,10,11) len os, of d]
  obtain mn where fgr: "RandomCrop_foreground self d s = Inr mn" and lmn: "length mn = length sp"
    and cont: "\<forall>i < length sp. mn ! i \<le> int (voxel ! (i + 1)) \<and>
                             int (voxel ! (i + 1)) < mn ! i + ?os ! i"
    by blast
  have "\<forall>i < length sp. ?os ! i \<le> int (sp ! i)" using os by simp
  from RandomCrop_uniform_total[OF this, of d] obtain u where
    u: "sequence_list (map (\<lambda>i. randint 0
            (map (\<lambda>i. int (sp ! i) - ?os ! i) [0..<length sp] ! i) (d_offset d i))
          [0..<length sp]) = Inr u" by blast
  let ?mx = "map (\<lambda>i. mn ! i + ?os ! i) [0..<length sp]"
  have b: "RandomCrop_bounds self d s = Inr (mn, ?mx)"
    unfolding RandomCrop_bounds_def Let_def
    using assms(1,2,3) by (simp add: img len u fgr)
  let ?s1 = "s\<lparr>s_RandomCrop_Param :=
                  Some (PStr (json_dumps (map int (c # sp), 0 # mn, int c # ?mx)))\<rparr>"
  have "\<forall>a. s_label ?s1 = Some a \<longrightarrow> shape a \<noteq> []" using assms(5,7) by simp
  moreover have "\<forall>a. s_weight ?s1 = Some a \<longrightarrow> shape a \<noteq> []" using assms(14) by simp
  moreover have "shape (s_image ?s1) = c # sp" by (simp add: img)
  ultimately obtain r where "crop_fields (0 # mn) (int c # ?mx) ?s1 = Inr r"
    using crop_fields_total[of ?s1 c sp mn ?mx "int c"] lmn by auto
  with b have run: "RandomCrop_call self d s = Inr r"
    by (simp add: RandomCrop_call_def img)
  have "\<forall>i < length ?os. mn ! i \<le> int (voxel ! (i + 1)) \<and> int (voxel ! (i + 1)) < ?mx ! i"
    using cont len by simp
  with run b lmn len show ?thesis
    by (intro exI[of _ r] exI[of _ mn] exI[of _ ?mx]) simp
qed

theorem foreground_crop_contains_voxel_witness:
  "\<exists>s'. RandomCrop_call (foreground_crop 2) draws_1 labelled_sample = Inr s' \<and>
        RandomCrop_bounds (foreground_crop 2) draws_1 labelled_sample = Inr ([2], [4]) \<and>
        valid_index (shape label_2x4) [1, 2] \<and> item label_2x4 [1, 2] = 1 \<and>
        (2 :: int) \<le> int ([1, 2] ! 1) \<and> int ([1, 2] ! 1) < (4 :: int)"
proof -
  have uniq: "\<forall>idx. valid_index (shape label_2x4) idx \<and> item label_2x4 idx \<in> set [1]
            \<longrightarrow> idx = [1, 2]"
    by (simp add: label_2x4_def)
  have v: "valid_index (shape label_2x4) [1, 2]"
    by (simp add: valid_index_def label_2x4_def)
  have sz: "\<forall>i < length (rc_output_size (foreground_crop 2)).
            2 \<le> rc_output_size (foreground_crop 2) ! i \<and>
            rc_output_size (foreground_crop 2) ! i \<le> int (shape (s_image labelled_sample) ! (i + 1))"
    by (simp add: foreground_crop_def labelled_sample_def image_1x4_def)
  have "\<exists>s' crop_min crop_max.
           RandomCrop_call (foreground_crop 2) draws_1 labelled_sample = Inr s' \<and>
           RandomCrop_bounds (foreground_crop 2) draws_1 labelled_sample = Inr (crop_min, crop_max) \<and>
           length crop_min = length (rc_output_size (foreground_crop 2)) \<and>
           length crop_max = length (rc_output_size (foreground_crop 2)) \<and>
           (\<forall>i < length (rc_output_size (foreground_crop 2)).
              crop_min ! i \<le> int ([1, 2] ! (i + 1)) \<and> int ([1, 2] ! (i + 1)) < crop_max ! i)"
  proof (rule foreground_crop_contains_voxel[where mask_label = "[1]" and label = label_2x4])
    show "rc_fg_focus (foreground_crop 2)" by (simp add: foreground_crop_def)
    show "rc_fg_ratio (foreground_crop 2) = 1" by (simp add: foreground_crop_def)
    show "d_unit draws_1 < 1" by (simp add: draws_1_def)
    show "rc_mask_label (foreground_crop 2) = Some [1]" by (simp add: foreground_crop_def)
    show "s_label labelled_sample = Some label_2x4" by (simp add: labelled_sample_def)
    show "shape (s_image labelled_sample) \<noteq> []" by (simp add: labelled_sample_def image_1x4_def)
    show "shape label_2x4 \<noteq> []" by (simp add: label_2x4_def)
    show "tl (shape label_2x4) = tl (shape (s_image labelled_sample))"
      by (simp add: labelled_sample_def image_1x4_def label_2x4_def)
    show "valid_index (shape label_2x4) [1, 2]" by (rule v)
    show "item label_2x4 [1, 2] \<in> set [1]" by (simp add: label_2x4_def)
    show "\<forall>idx. valid_index (shape label_2x4) idx \<and> item label_2x4 idx \<in> set [1]
            \<longrightarrow> idx = [1, 2]" by (rule uniq)
    show "length (rc_output_size (foreground_crop 2)) = length (shape (s_image labelled_sample)) - 1"
      by (simp add: foreground_crop_def labelled_sample_def image_1x4_def)
    show "\<forall>i < length (rc_output_size (foreground_crop 2)).
            2 \<le> rc_output_size (foreground_crop 2) ! i \<and>
            rc_output_size (foreground_crop 2) ! i \<le> int (shape (s_image labelled_sample) ! (i + 1))"
      by (rule sz)
    show "\<forall>a. s_weight labelled_sample = Some a \<longrightarrow> shape a \<noteq> []"
      by (simp add: labelled_sample_def weight_1x3_def)
  qed
  then obtain s' where "RandomCrop_call (foreground_crop 2) draws_1 labelled_sample = Inr s'"
    by blast
  moreover have "item label_2x4 [1, 2] = 1" by (simp add: label_2x4_def)
  ultimately show ?thesis using foreground_crop_2_bounds v by auto
qed

section \<open>Facts about the round trip\<close>










section \<open>The round trip\<close>














end
